theory Spec2Isabelle
  imports Complex_Main
begin

section \<open>Conventions of the embedding\<close>

text \<open>
  The scoring engine is TypeScript. Its \<open>number\<close>s are modelled as exact reals
  (counts and array indices as naturals, the results of \<open>Math.round\<close> as integers), so
  every theorem below is about the arithmetic the code writes down, not about the rounding
  of IEEE doubles.

  Two things that JavaScript does silently are made visible as values of type \<open>fault\<close>:
  a \<open>TypeError\<close> (reducing an empty array without a start value, reading a property of
  \<open>undefined\<close>) and a division whose denominator is zero (JavaScript would answer
  \<open>Infinity\<close> or \<open>NaN\<close>). A function of the engine that can reach either returns
  \<open>fault + result\<close>.

  Text that the engine renders from numbers (explanations, narratives, rationale strings)
  is kept as the template that was chosen together with the values that fill its holes;
  the formatting of the digits is left out. Wall-clock readings and the random number
  are inputs of the model. The remainder operator of the ring buffer is HOL's \<open>mod\<close>:
  the engine takes it by a capacity of 300 or 60 and by the length of a non-empty array.

  Where a result of the engine turns on a rounding error or on an overflow of doubles, the
  statement says so: the volatility evaluator is also given over an arbitrary arithmetic,
  and a statement that needs the sums over a window to stay finite bounds the depths by
  \<open>10 ^ 300\<close> and the prices by \<open>10 ^ 150\<close> in magnitude (a window holds at most 300
  items, and the largest double is about \<open>1.8 * 10 ^ 308\<close>).
\<close>

datatype fault = TypeError | ZeroDenominator

definition thenR :: "fault + 'a \<Rightarrow> ('a \<Rightarrow> fault + 'b) \<Rightarrow> fault + 'b" where
  "thenR m f = (case m of Inl e \<Rightarrow> Inl e | Inr x \<Rightarrow> f x)"

definition divide_checked :: "real \<Rightarrow> real \<Rightarrow> fault + real" where
  "divide_checked a b = (if b = 0 then Inl ZeroDenominator else Inr (a / b))"

definition Math_round :: "real \<Rightarrow> int" where
  \<comment> \<open>\<open>Math.round\<close>: the nearest integer, a tie going up.\<close>
  "Math_round x = \<lfloor>x + 1 / 2\<rfloor>"

section \<open>CircularBuffer\<close>

record 'a CircularBuffer =
  buffer :: "'a list"
  maxSize :: nat
  head :: nat

definition new_CircularBuffer :: "nat \<Rightarrow> 'a CircularBuffer" where
  "new_CircularBuffer n = \<lparr>buffer = [], maxSize = n, head = 0\<rparr>"

definition array_store :: "'a list \<Rightarrow> nat \<Rightarrow> 'a \<Rightarrow> 'a list" where
  \<comment> \<open>\<open>a[i] = v\<close>: inside the array the slot is overwritten; at or beyond its end
      JavaScript grows the array (the slots in between are holes, read as \<open>undefined\<close>).\<close>
  "array_store xs i v =
     (if i < length xs then xs[i := v]
      else xs @ replicate (i - length xs) undefined @ [v])"

definition push :: "'a \<Rightarrow> 'a CircularBuffer \<Rightarrow> 'a CircularBuffer" where
  \<comment> \<open>With \<open>maxSize = 0\<close> the remainder is \<open>NaN\<close> in JavaScript: for such a buffer the
      model is exact up to the array that the first push leaves, and says nothing of the
      cursor.\<close>
  "push item b =
     (if length (buffer b) < maxSize b
      then b\<lparr>buffer := buffer b @ [item]\<rparr>
      else b\<lparr>buffer := array_store (buffer b) (head b) item,
             head := (head b + 1) mod maxSize b\<rparr>)"

definition getAll :: "'a CircularBuffer \<Rightarrow> 'a list" where
  "getAll b =
     (let size = length (buffer b)
      in map (\<lambda>i. buffer b ! ((head b + i) mod size)) [0..<size])"

definition mean :: "real CircularBuffer \<Rightarrow> fault + real" where
  "mean b =
     (if length (buffer b) = 0 then Inr 0
      else divide_checked (foldl (\<lambda>acc val. acc + val) 0 (buffer b))
                          (real (length (buffer b))))"

definition size_buf :: "'a CircularBuffer \<Rightarrow> nat" where
  "size_buf b = length (buffer b)"

definition clear :: "'a CircularBuffer \<Rightarrow> 'a CircularBuffer" where
  "clear b = b\<lparr>buffer := [], head := 0\<rparr>"

definition pushAll :: "'a list \<Rightarrow> 'a CircularBuffer \<Rightarrow> 'a CircularBuffer" where
  \<comment> \<open>The items of a list pushed one after the other, the first item first.\<close>
  "pushAll xs b = fold push xs b"

text \<open>
  What a run of pushes keeps true of a buffer of positive capacity: the array never grows
  beyond the capacity, the cursor stays at slot 0 until the array is full, and reading the
  array from the cursor round gives the items in the order they came.
\<close>

definition chronological :: "'a CircularBuffer \<Rightarrow> 'a list" where
  "chronological b = drop (head b) (buffer b) @ take (head b) (buffer b)"

definition buffer_ok :: "'a CircularBuffer \<Rightarrow> bool" where
  "buffer_ok b \<longleftrightarrow>
     0 < maxSize b \<and> length (buffer b) \<le> maxSize b \<and> head b < maxSize b \<and>
     (length (buffer b) < maxSize b \<longrightarrow> head b = 0)"

section \<open>The data model\<close>

text \<open>
  The interfaces of \<open>types.ts\<close>, field for field. A field name that several interfaces
  share, or that Isabelle reserves, carries a prefix (\<open>sig_name\<close>, \<open>sig_value\<close>,
  \<open>stress_raw_score\<close>, \<open>step_signal\<close>, \<open>event_level\<close>, \<open>trace_timestamp\<close>). The raw
  metrics keep the number behind each formatted string, and the key written with the
  Greek capital delta is spelt \<open>Delta Mean\<close>.
\<close>

datatype StressLevel = STABLE | ELEVATED | STRESSED | UNSTABLE | CRITICAL

datatype ConfidenceLevel = LOW | MEDIUM | HIGH

datatype SignalType = LIQUIDITY | FLOW | VOLATILITY | FORCED_SELLING

datatype Side = Buy | Sell

datatype DataQuality = GOOD | DEGRADED | STALE

record Trade =
  trade_id :: real
  trade_price :: real
  quantity :: real
  trade_timestamp :: real
  side :: Side

record TradeStats =
  buy_volume :: real
  sell_volume :: real
  buy_count :: real
  sell_count :: real
  large_trades :: "Trade list"

record NormalizedMarketTick =
  exchange_timestamp :: real
  received_timestamp :: real
  processing_timestamp :: real
  price :: real
  volume_24h :: real
  bids :: "(real \<times> real) list"
  asks :: "(real \<times> real) list"
  trades :: TradeStats
  mid_price :: real
  spread :: real
  spread_bps :: real
  total_depth :: real
  is_valid :: bool
  data_quality :: DataQuality

text \<open>The explanation of a signal: which sentence, and the number it quotes.\<close>

datatype Explanation =
    Liquidity_hole real
  | Depth_within_stable_range
  | Aggressive_market_selling
  | Transaction_flow_balanced
  | Price_instability
  | Price_volatility_within_bounds
  | Large_seller_active real
  | No_whale_selling
  | Insufficient_data

record SignalOutput =
  sig_name :: SignalType
  sig_value :: int
  severity :: StressLevel
  triggered :: bool
  raw_metrics :: "(string \<times> real) list"
  explanation :: Explanation
  confidence :: ConfidenceLevel
  sig_timestamp :: real

record Breakdown =
  liquidity :: int
  flow :: int
  volatility :: int
  forcedSelling :: int

record StressScore =
  score :: int
  stress_raw_score :: real
  level :: StressLevel
  color :: string
  stress_signals_aligned :: nat
  stress_confidence :: ConfidenceLevel
  breakdown :: Breakdown
  stress_timestamp :: real

datatype StepType = CATALYST | AMPLIFIER | SYSTEMIC

record CausalStep =
  sequence_id :: nat
  step_type :: StepType
  step_signal :: SignalType
  description :: Explanation
  step_severity :: StressLevel
  step_timestamp :: real

datatype Narrative =
    No_narrative
  | Event_initiated_by SignalType
  | Systemic_breakdown SignalType nat
  | Tension_detected SignalType SignalType

datatype RiskAssessment =
    No_assessment
  | Structural_failure_imminent
  | Corrective_action_insufficient
  | Monitoring_catalyst_propagation

record CausalSequence =
  active :: bool
  steps :: "CausalStep list"
  catalyst_id :: "SignalType option"
  narrative :: Narrative
  risk_assessment :: RiskAssessment

datatype PrimaryFactor = Factor SignalType | Unknown_Catalyst

record CriticalEvent =
  event_id :: "real \<times> int"
  event_timestamp :: real
  event_price :: real
  stress_score :: int
  event_level :: StressLevel
  primary_factor :: PrimaryFactor
  event_narrative :: Narrative
  event_signals :: "SignalType list"

record WeightContribution =
  wc_signal :: SignalType
  weight :: real
  raw_value :: int
  contribution :: real
  pct_of_total :: real

datatype ConfidenceReason =
    Depth_samples nat
  | Price_ticks nat
  | Volume_density
  | Trade_frequency

text \<open>
  The audit narrative is one sentence pattern; these are the values written into it.
  \<open>narr_shock\<close> is present when the sentence about the shock multiplier is.
\<close>

record AuditNarrative =
  narr_dominant :: WeightContribution
  narr_raw :: real
  narr_shock :: "(real \<times> nat \<times> real) option"
  narr_rising :: bool
  narr_alpha :: real
  narr_fast_track :: bool
  narr_final :: int
  narr_level :: StressLevel
  narr_confidence :: ConfidenceLevel

record DecisionTrace =
  weight_contributions :: "WeightContribution list"
  raw_score :: real
  signals_aligned :: nat
  shock_multiplier :: real
  pre_smooth_score :: real
  smoothing_alpha :: real
  previous_score :: real
  final_score :: int
  confidence_reasons :: "(SignalType \<times> ConfidenceReason) list"
  audit_narrative :: AuditNarrative
  trace_timestamp :: real

record TriggerEntry =
  trigger_signal :: SignalType
  trigger_timestamp :: real
  initialValue :: int

record AnalyticsEngine =
  liquidityBuffer :: "real CircularBuffer"
  priceBuffer :: "real CircularBuffer"
  volBuffer :: "real CircularBuffer"
  previousStress :: real
  previousLevel :: StressLevel
  previousSignalsAligned :: nat
  lastTrace :: "DecisionTrace option"
  triggerOrder :: "TriggerEntry list"

text \<open>
  What one call of \<open>processTick\<close> reads from outside the engine: \<open>Date.now()\<close> when the
  trace is built, when the score is built and when a trigger entry is appended for a
  signal, and \<open>Math.random()\<close>.
\<close>

record Env =
  now_trace :: real
  now_stress :: real
  now_trigger :: "SignalType \<Rightarrow> real"
  random :: real

record TickOutput =
  signals :: "SignalType \<Rightarrow> SignalOutput"
  stress :: StressScore
  causal :: CausalSequence
  criticalEvent :: "CriticalEvent option"
  trace :: DecisionTrace

section \<open>AnalyticsEngine\<close>

definition new_AnalyticsEngine :: AnalyticsEngine where
  "new_AnalyticsEngine =
     \<lparr>liquidityBuffer = new_CircularBuffer 300,
      priceBuffer = new_CircularBuffer 300,
      volBuffer = new_CircularBuffer 60,
      previousStress = 0,
      previousLevel = STABLE,
      previousSignalsAligned = 0,
      lastTrace = None,
      triggerOrder = []\<rparr>"

fun weights :: "SignalType \<Rightarrow> real" where
  "weights LIQUIDITY = 0.35"
| "weights FLOW = 0.25"
| "weights VOLATILITY = 0.25"
| "weights FORCED_SELLING = 0.15"

definition reset :: "AnalyticsEngine \<Rightarrow> AnalyticsEngine" where
  "reset e =
     e\<lparr>liquidityBuffer := clear (liquidityBuffer e),
       priceBuffer := clear (priceBuffer e),
       volBuffer := clear (volBuffer e),
       previousStress := 0,
       previousLevel := STABLE,
       previousSignalsAligned := 0,
       triggerOrder := [],
       lastTrace := None\<rparr>"

definition determineConfidence :: "real \<Rightarrow> real \<Rightarrow> real \<Rightarrow> ConfidenceLevel" where
  "determineConfidence v highThreshold medThreshold =
     (if v \<ge> highThreshold then HIGH
      else if v \<ge> medThreshold then MEDIUM
      else LOW)"

fun getStressRank :: "StressLevel \<Rightarrow> nat" where
  "getStressRank STABLE = 0"
| "getStressRank ELEVATED = 1"
| "getStressRank STRESSED = 2"
| "getStressRank UNSTABLE = 3"
| "getStressRank CRITICAL = 4"

definition getSeverity :: "real \<Rightarrow> StressLevel" where
  "getSeverity risk =
     (if risk < 30 then STABLE
      else if risk < 50 then ELEVATED
      else if risk < 75 then STRESSED
      else CRITICAL)"

definition classifyLevel :: "real \<Rightarrow> StressLevel" where
  "classifyLevel s =
     (if s < 25 then STABLE
      else if s < 50 then ELEVATED
      else if s < 75 then STRESSED
      else if s < 90 then UNSTABLE
      else CRITICAL)"

definition defaultSignal :: "SignalType \<Rightarrow> real \<Rightarrow> SignalOutput" where
  "defaultSignal name ts =
     \<lparr>sig_name = name, sig_value = 0, severity = STABLE, triggered = False,
      raw_metrics = [], explanation = Insufficient_data, confidence = LOW,
      sig_timestamp = ts\<rparr>"

definition processLiquidity ::
  "AnalyticsEngine \<Rightarrow> NormalizedMarketTick \<Rightarrow> fault + (SignalOutput \<times> AnalyticsEngine)" where
  "processLiquidity e tick =
     (let lb = push (total_depth tick) (liquidityBuffer e)
      in thenR (mean lb) (\<lambda>baseline.
         thenR (if baseline = 0 then Inr 0
                else thenR (divide_checked (total_depth tick - baseline) baseline)
                       (\<lambda>q. Inr (q * 100))) (\<lambda>depthChange.
         let risk = (if depthChange \<ge> 0 then 0 else min 100 ((- depthChange / 40) * 100));
             conf = determineConfidence (real (size_buf lb)) 60 20
         in Inr (\<lparr>sig_name = LIQUIDITY,
                  sig_value = Math_round risk,
                  severity = getSeverity risk,
                  triggered = (risk > 60),
                  raw_metrics = [(''Depth'', total_depth tick), (''Delta Mean'', depthChange)],
                  explanation = (if risk > 60 then Liquidity_hole \<bar>depthChange\<bar>
                                 else Depth_within_stable_range),
                  confidence = conf,
                  sig_timestamp = processing_timestamp tick\<rparr>,
                 e\<lparr>liquidityBuffer := lb\<rparr>))))"

definition processFlow :: "NormalizedMarketTick \<Rightarrow> fault + SignalOutput" where
  "processFlow tick =
     (let totalVol = buy_volume (trades tick) + sell_volume (trades tick)
      in if totalVol = 0 then Inr (defaultSignal FLOW (processing_timestamp tick))
         else thenR (divide_checked (sell_volume (trades tick)) totalVol) (\<lambda>sellRatio.
              let risk = max 0 ((sellRatio - 0.5) * 200);
                  conf = determineConfidence totalVol 2.0 0.5
              in thenR (divide_checked sellRatio
                          (if 1 - sellRatio \<noteq> 0 then 1 - sellRatio else 0.01)) (\<lambda>imbalance.
                 Inr \<lparr>sig_name = FLOW,
                      sig_value = Math_round risk,
                      severity = getSeverity risk,
                      triggered = (risk > 65),
                      raw_metrics = [(''Sell %'', sellRatio * 100), (''Imbalance'', imbalance)],
                      explanation = (if risk > 65 then Aggressive_market_selling
                                     else Transaction_flow_balanced),
                      confidence = conf,
                      sig_timestamp = processing_timestamp tick\<rparr>)))"

definition reduce1 :: "('a \<Rightarrow> 'a \<Rightarrow> 'a) \<Rightarrow> 'a list \<Rightarrow> fault + 'a" where
  \<comment> \<open>\<open>arr.reduce(f)\<close> with no start value: a \<open>TypeError\<close> on the empty array.\<close>
  "reduce1 f arr = (case arr of [] \<Rightarrow> Inl TypeError | x # rest \<Rightarrow> Inr (foldl f x rest))"

definition getStd :: "real list \<Rightarrow> fault + real" where
  "getStd arr =
     thenR (reduce1 (\<lambda>a b. a + b) arr) (\<lambda>total.
     thenR (divide_checked total (real (length arr))) (\<lambda>m.
     thenR (divide_checked (foldl (\<lambda>a b. a + (b - m)\<^sup>2) 0 arr) (real (length arr)))
       (\<lambda>v. Inr (sqrt v))))"

definition slice_last :: "nat \<Rightarrow> 'a list \<Rightarrow> 'a list" where
  \<comment> \<open>\<open>arr.slice(-n)\<close>: the last \<open>n\<close> items, the whole array when it is shorter.\<close>
  "slice_last n arr = drop (length arr - n) arr"

definition processVolatility ::
  "AnalyticsEngine \<Rightarrow> NormalizedMarketTick \<Rightarrow> fault + (SignalOutput \<times> AnalyticsEngine)" where
  "processVolatility e tick =
     (let pb = push (price tick) (priceBuffer e);
          prices = getAll pb
      in if length prices < 20
         then Inr (defaultSignal VOLATILITY (processing_timestamp tick), e\<lparr>priceBuffer := pb\<rparr>)
         else let shortTerm = slice_last 10 prices
              in thenR (getStd shortTerm) (\<lambda>stdShort.
                 thenR (getStd prices) (\<lambda>stdAll.
                 let stdLong = (if stdAll \<noteq> 0 then stdAll else 1)
                 in thenR (divide_checked stdShort stdLong) (\<lambda>ratio.
                    let risk = min 100 (max 0 ((ratio - 1) * 50));
                        conf = determineConfidence (real (length prices)) 50 30
                    in Inr (\<lparr>sig_name = VOLATILITY,
                             sig_value = Math_round risk,
                             severity = getSeverity risk,
                             triggered = (risk > 55),
                             raw_metrics = [(''Vol Ratio'', ratio), (''Price Std'', stdShort)],
                             explanation = (if risk > 55 then Price_instability
                                            else Price_volatility_within_bounds),
                             confidence = conf,
                             sig_timestamp = processing_timestamp tick\<rparr>,
                            e\<lparr>priceBuffer := pb\<rparr>)))))"

definition processForcedSelling :: "NormalizedMarketTick \<Rightarrow> SignalOutput" where
  "processForcedSelling tick =
     (let largeSells = filter (\<lambda>t. side t = Sell) (large_trades (trades tick));
          totalLargeVol = foldl (\<lambda>s t. s + quantity t) 0 largeSells;
          risk = min 100 ((totalLargeVol / 5) * 100);
          totalTrades = buy_count (trades tick) + sell_count (trades tick);
          conf = determineConfidence totalTrades 50 10
      in \<lparr>sig_name = FORCED_SELLING,
          sig_value = Math_round risk,
          severity = getSeverity risk,
          triggered = (risk > 45),
          raw_metrics = [(''Whale Vol'', totalLargeVol), (''Count'', real (length largeSells))],
          explanation = (if risk > 45 then Large_seller_active totalLargeVol
                         else No_whale_selling),
          confidence = conf,
          sig_timestamp = processing_timestamp tick\<rparr>)"

definition signal_keys :: "SignalType list" where
  \<comment> \<open>The keys of the \<open>signals\<close> object in the order \<open>processTick\<close> writes them, which
      is the order of \<open>Object.values\<close>.\<close>
  "signal_keys = [LIQUIDITY, FLOW, VOLATILITY, FORCED_SELLING]"

fun stress_color :: "StressLevel \<Rightarrow> string" where
  "stress_color STABLE = ''#10b981''"
| "stress_color ELEVATED = ''#eab308''"
| "stress_color STRESSED = ''#f97316''"
| "stress_color UNSTABLE = ''#ef4444''"
| "stress_color CRITICAL = ''#dc2626''"

definition confValue :: "SignalOutput \<Rightarrow> real" where
  "confValue s = (if confidence s = HIGH then 3 else if confidence s = MEDIUM then 2 else 1)"

definition weightContribution :: "real \<Rightarrow> SignalOutput \<Rightarrow> fault + WeightContribution" where
  \<comment> \<open>The body of the \<open>map\<close> that builds \<open>weight_contributions\<close>.\<close>
  "weightContribution rawStress sg =
     (let w = weights (sig_name sg);
          c = real_of_int (sig_value sg) * w
      in thenR (if rawStress > 0
                then thenR (divide_checked c rawStress) (\<lambda>q. Inr (q * 100))
                else Inr 0) (\<lambda>pct.
         Inr \<lparr>wc_signal = sig_name sg, weight = w, raw_value = sig_value sg,
              contribution = c, pct_of_total = pct\<rparr>))"

fun mapR :: "('a \<Rightarrow> fault + 'b) \<Rightarrow> 'a list \<Rightarrow> fault + 'b list" where
  "mapR f [] = Inr []"
| "mapR f (x # xs) = thenR (f x) (\<lambda>y. thenR (mapR f xs) (\<lambda>ys. Inr (y # ys)))"

definition calculateStressWithTrace ::
  "AnalyticsEngine \<Rightarrow> (SignalType \<Rightarrow> SignalOutput) \<Rightarrow> NormalizedMarketTick \<Rightarrow> Env
     \<Rightarrow> fault + ((StressScore \<times> DecisionTrace) \<times> AnalyticsEngine)" where
  "calculateStressWithTrace e sigs tick env =
     (let sigArray = map sigs signal_keys;
          rawStress =
            real_of_int (sig_value (sigs LIQUIDITY)) * weights LIQUIDITY +
            real_of_int (sig_value (sigs FLOW)) * weights FLOW +
            real_of_int (sig_value (sigs VOLATILITY)) * weights VOLATILITY +
            real_of_int (sig_value (sigs FORCED_SELLING)) * weights FORCED_SELLING;
          activeSignals = length (filter triggered sigArray);
          shockMultiplier = 1.0 + real activeSignals * 0.08;
          targetStress = min 100 (rawStress * shockMultiplier);
          alpha = (if targetStress > previousStress e then 0.35 else 0.15);
          smoothedStress = alpha * targetStress + (1 - alpha) * previousStress e;
          finalScore = Math_round smoothedStress;
          lvl = classifyLevel smoothedStress;
          confValues = map confValue sigArray
      in thenR (divide_checked (foldl (\<lambda>a b. a + b) 0 confValues) (real (length confValues)))
           (\<lambda>avgConf.
         let globalConfidence =
               (if avgConf > 2.5 then HIGH else if avgConf > 1.5 then MEDIUM else LOW)
         in thenR (mapR (weightContribution rawStress) sigArray) (\<lambda>wcs.
            let reasons =
              [(LIQUIDITY, Depth_samples (size_buf (liquidityBuffer e))),
               (VOLATILITY, Price_ticks (size_buf (priceBuffer e))),
               (FLOW, Volume_density),
               (FORCED_SELLING, Trade_frequency)]
            in (case sort_key (\<lambda>c. - contribution c) wcs of
                  [] \<Rightarrow> Inl TypeError
                | dominant # _ \<Rightarrow>
                    let narr =
                          \<lparr>narr_dominant = dominant,
                           narr_raw = rawStress,
                           narr_shock = (if activeSignals > 0
                                         then Some (shockMultiplier, activeSignals, targetStress)
                                         else None),
                           narr_rising = (targetStress > previousStress e),
                           narr_alpha = alpha,
                           narr_fast_track = (alpha = 0.35),
                           narr_final = finalScore,
                           narr_level = lvl,
                           narr_confidence = globalConfidence\<rparr>;
                        tr =
                          \<lparr>weight_contributions = wcs,
                           raw_score = rawStress,
                           signals_aligned = activeSignals,
                           shock_multiplier = shockMultiplier,
                           pre_smooth_score = targetStress,
                           smoothing_alpha = alpha,
                           previous_score = previousStress e,
                           final_score = finalScore,
                           confidence_reasons = reasons,
                           audit_narrative = narr,
                           trace_timestamp = now_trace env\<rparr>;
                        e' = e\<lparr>previousStress := smoothedStress, lastTrace := Some tr\<rparr>;
                        st =
                          \<lparr>score = finalScore,
                           stress_raw_score = rawStress,
                           level = lvl,
                           color = stress_color lvl,
                           stress_signals_aligned = activeSignals,
                           stress_confidence = globalConfidence,
                           breakdown =
                             \<lparr>liquidity = sig_value (sigs LIQUIDITY),
                              flow = sig_value (sigs FLOW),
                              volatility = sig_value (sigs VOLATILITY),
                              forcedSelling = sig_value (sigs FORCED_SELLING)\<rparr>,
                           stress_timestamp = now_stress env\<rparr>
                    in Inr ((st, tr), e')))))"

definition generateNarrative :: "CausalStep list \<Rightarrow> StressScore \<Rightarrow> Narrative" where
  "generateNarrative sts st =
     (case sts of
        [] \<Rightarrow> No_narrative
      | first # _ \<Rightarrow>
          let catalyst = step_signal first
          in if length sts = 1 then Event_initiated_by catalyst
             else let systemicCount = length (filter (\<lambda>s. step_type s = SYSTEMIC) sts)
                  in if systemicCount > 0 then Systemic_breakdown catalyst (length sts - 1)
                     else Tension_detected catalyst (step_signal (last sts)))"

definition recordTrigger ::
  "(SignalType \<Rightarrow> real) \<Rightarrow> TriggerEntry list \<Rightarrow> SignalOutput \<Rightarrow> TriggerEntry list" where
  \<comment> \<open>The body of the \<open>forEach\<close> over the triggered signals.\<close>
  "recordTrigger clock order s =
     (if find (\<lambda>t. trigger_signal t = sig_name s) order = None
      then order @ [\<lparr>trigger_signal = sig_name s,
                     trigger_timestamp = clock (sig_name s),
                     initialValue = sig_value s\<rparr>]
      else order)"

definition causalStep ::
  "StressScore \<Rightarrow> (SignalType \<Rightarrow> SignalOutput) \<Rightarrow> nat \<times> TriggerEntry \<Rightarrow> CausalStep" where
  \<comment> \<open>The body of the \<open>map\<close> over the trigger order, with the index of the entry.\<close>
  "causalStep st sigs it =
     (let index = fst it;
          trigger = snd it;
          signalData = sigs (trigger_signal trigger)
      in \<lparr>sequence_id = index + 1,
          step_type = (if index = 0 then CATALYST
                       else if score st > 70 then SYSTEMIC else AMPLIFIER),
          step_signal = trigger_signal trigger,
          description = explanation signalData,
          step_severity = severity signalData,
          step_timestamp = trigger_timestamp trigger\<rparr>)"

definition buildCausalSequence ::
  "AnalyticsEngine \<Rightarrow> StressScore \<Rightarrow> (SignalType \<Rightarrow> SignalOutput) \<Rightarrow> Env
     \<Rightarrow> CausalSequence \<times> AnalyticsEngine" where
  "buildCausalSequence e st sigs env =
     (let activeSignalEntries = filter triggered (map sigs signal_keys)
      in if length activeSignalEntries = 0
         then (\<lparr>active = False, steps = [], catalyst_id = None,
                 narrative = No_narrative, risk_assessment = No_assessment\<rparr>,
               e\<lparr>triggerOrder := []\<rparr>)
         else let appended = foldl (recordTrigger (now_trigger env)) (triggerOrder e)
                               activeSignalEntries;
                  order = filter (\<lambda>t. triggered (sigs (trigger_signal t))) appended;
                  sts = map (causalStep st sigs) (enumerate 0 order);
                  catalyst = (case order of [] \<Rightarrow> None | t # _ \<Rightarrow> Some (trigger_signal t))
              in (\<lparr>active = True,
                   steps = sts,
                   catalyst_id = catalyst,
                   narrative = generateNarrative sts st,
                   risk_assessment =
                     (if score st > 80 then Structural_failure_imminent
                      else if score st > 60 then Corrective_action_insufficient
                      else Monitoring_catalyst_propagation)\<rparr>,
                  e\<lparr>triggerOrder := order\<rparr>))"

definition detectCriticalEvent ::
  "AnalyticsEngine \<Rightarrow> NormalizedMarketTick \<Rightarrow> StressScore \<Rightarrow> CausalSequence \<Rightarrow> Env
     \<Rightarrow> CriticalEvent option \<times> AnalyticsEngine" where
  "detectCriticalEvent e tick st cs env =
     (let levelUpgrade = (getStressRank (level st) > getStressRank (previousLevel e) \<and>
                          getStressRank (level st) \<ge> 2);
          alignmentIncrease = (stress_signals_aligned st > previousSignalsAligned e \<and>
                               score st > 60)
      in if levelUpgrade \<or> alignmentIncrease
         then let event =
                    \<lparr>event_id = (exchange_timestamp tick, \<lfloor>random env * 999\<rfloor>),
                     event_timestamp = exchange_timestamp tick,
                     event_price = price tick,
                     stress_score = score st,
                     event_level = level st,
                     primary_factor = (case catalyst_id cs of Some c \<Rightarrow> Factor c
                                       | None \<Rightarrow> Unknown_Catalyst),
                     event_narrative = narrative cs,
                     event_signals = map step_signal (steps cs)\<rparr>
              in (Some event,
                  e\<lparr>previousLevel := level st,
                    previousSignalsAligned := stress_signals_aligned st\<rparr>)
         else (None,
               e\<lparr>previousLevel := level st,
                 previousSignalsAligned := stress_signals_aligned st\<rparr>))"

definition signals_of ::
  "SignalOutput \<Rightarrow> SignalOutput \<Rightarrow> SignalOutput \<Rightarrow> SignalOutput
     \<Rightarrow> SignalType \<Rightarrow> SignalOutput" where
  \<comment> \<open>The object literal with one entry for each signal.\<close>
  "signals_of l f v s k =
     (case k of LIQUIDITY \<Rightarrow> l | FLOW \<Rightarrow> f | VOLATILITY \<Rightarrow> v | FORCED_SELLING \<Rightarrow> s)"

definition processTick ::
  "AnalyticsEngine \<Rightarrow> NormalizedMarketTick \<Rightarrow> Env \<Rightarrow> fault + (TickOutput \<times> AnalyticsEngine)" where
  "processTick e tick env =
     thenR (processLiquidity e tick) (\<lambda>(l, e1).
     thenR (processFlow tick) (\<lambda>f.
     thenR (processVolatility e1 tick) (\<lambda>(v, e2).
     let sigs = signals_of l f v (processForcedSelling tick)
     in thenR (calculateStressWithTrace e2 sigs tick env) (\<lambda>((st, tr), e3).
        let (cs, e4) = buildCausalSequence e3 st sigs env;
            (ev, e5) = detectCriticalEvent e4 tick st cs env
        in Inr (\<lparr>signals = sigs, stress = st, causal = cs, criticalEvent = ev, trace = tr\<rparr>,
                e5)))))"

fun processTicks ::
  "AnalyticsEngine \<Rightarrow> (NormalizedMarketTick \<times> Env) list
     \<Rightarrow> fault + (TickOutput list \<times> AnalyticsEngine)" where
  "processTicks e [] = Inr ([], e)"
| "processTicks e ((tick, env) # rest) =
     thenR (processTick e tick env) (\<lambda>(out, e1).
     thenR (processTicks e1 rest) (\<lambda>(outs, e2). Inr (out # outs, e2)))"

section \<open>The volatility evaluator in rounded arithmetic\<close>

text \<open>
  The deviations that \<open>processVolatility\<close> compares are computed in doubles, and a
  rounding error decides whether the long deviation is 0. The evaluator is therefore
  written a second time over an arithmetic \<open>ar\<close> that is a parameter: its six operations
  stand wherever the source adds, subtracts, multiplies, divides, squares or takes a
  square root, and nothing is assumed of them. The arithmetic of doubles is one such
  \<open>ar\<close> for as long as no intermediate value overflows; \<open>exact_arith\<close> is the arithmetic
  of the definitions above. Array lengths, comparisons, \<open>Math.min\<close>, \<open>Math.max\<close> and
  \<open>Math.round\<close> are exact in doubles and are not parameters.
\<close>

record arith =
  plus_d :: "real \<Rightarrow> real \<Rightarrow> real"
  minus_d :: "real \<Rightarrow> real \<Rightarrow> real"
  times_d :: "real \<Rightarrow> real \<Rightarrow> real"
  over_d :: "real \<Rightarrow> real \<Rightarrow> real"
  pow2_d :: "real \<Rightarrow> real"
  sqrt_d :: "real \<Rightarrow> real"

definition exact_arith :: arith where
  "exact_arith =
     \<lparr>plus_d = (\<lambda>a b. a + b), minus_d = (\<lambda>a b. a - b), times_d = (\<lambda>a b. a * b),
      over_d = (\<lambda>a b. a / b), pow2_d = (\<lambda>a. a\<^sup>2), sqrt_d = sqrt\<rparr>"

definition divide_checked_in :: "arith \<Rightarrow> real \<Rightarrow> real \<Rightarrow> fault + real" where
  "divide_checked_in ar a b = (if b = 0 then Inl ZeroDenominator else Inr (over_d ar a b))"

definition getStd_in :: "arith \<Rightarrow> real list \<Rightarrow> fault + real" where
  "getStd_in ar arr =
     thenR (reduce1 (\<lambda>a b. plus_d ar a b) arr) (\<lambda>total.
     thenR (divide_checked_in ar total (real (length arr))) (\<lambda>m.
     thenR (divide_checked_in ar
              (foldl (\<lambda>a b. plus_d ar a (pow2_d ar (minus_d ar b m))) 0 arr)
              (real (length arr)))
       (\<lambda>v. Inr (sqrt_d ar v))))"

definition processVolatility_in ::
  "arith \<Rightarrow> AnalyticsEngine \<Rightarrow> NormalizedMarketTick
     \<Rightarrow> fault + (SignalOutput \<times> AnalyticsEngine)" where
  "processVolatility_in ar e tick =
     (let pb = push (price tick) (priceBuffer e);
          prices = getAll pb
      in if length prices < 20
         then Inr (defaultSignal VOLATILITY (processing_timestamp tick), e\<lparr>priceBuffer := pb\<rparr>)
         else let shortTerm = slice_last 10 prices
              in thenR (getStd_in ar shortTerm) (\<lambda>stdShort.
                 thenR (getStd_in ar prices) (\<lambda>stdAll.
                 let stdLong = (if stdAll \<noteq> 0 then stdAll else 1)
                 in thenR (divide_checked_in ar stdShort stdLong) (\<lambda>ratio.
                    let risk = min 100 (max 0 (times_d ar (minus_d ar ratio 1) 50));
                        conf = determineConfidence (real (length prices)) 50 30
                    in Inr (\<lparr>sig_name = VOLATILITY,
                             sig_value = Math_round risk,
                             severity = getSeverity risk,
                             triggered = (risk > 55),
                             raw_metrics = [(''Vol Ratio'', ratio), (''Price Std'', stdShort)],
                             explanation = (if risk > 55 then Price_instability
                                            else Price_volatility_within_bounds),
                             confidence = conf,
                             sig_timestamp = processing_timestamp tick\<rparr>,
                            e\<lparr>priceBuffer := pb\<rparr>)))))"

section \<open>The formulas of the specification\<close>

text \<open>
  The population standard deviation, in exact arithmetic and in an arithmetic \<open>ar\<close> (the
  mean first, then the mean of the squared distances from it, each sum taken from the
  first item to the last); the volatility risk, written once as the code computes it (in
  \<open>ar\<close>, a long-window deviation of 0 replaced by 1) and once as the specification words
  it (the long-window deviation floored to 1, that is \<open>max(stddev, 1)\<close>); the smoothed
  score; and the chain reported when nothing is triggered.
\<close>

definition population_std :: "real list \<Rightarrow> real" where
  "population_std xs =
     (let m = sum_list xs / real (length xs)
      in sqrt ((\<Sum>x\<leftarrow>xs. (x - m)\<^sup>2) / real (length xs)))"

definition population_std_in :: "arith \<Rightarrow> real list \<Rightarrow> real" where
  "population_std_in ar xs =
     (let n = real (length xs);
          m = over_d ar (foldl (plus_d ar) (hd xs) (tl xs)) n
      in sqrt_d ar
           (over_d ar (foldl (\<lambda>a b. plus_d ar a (pow2_d ar (minus_d ar b m))) 0 xs) n))"

definition volatility_risk_in :: "arith \<Rightarrow> real list \<Rightarrow> real" where
  "volatility_risk_in ar w =
     (let short = population_std_in ar (drop (length w - 10) w);
          sd = population_std_in ar w;
          long = (if sd = 0 then 1 else sd)
      in min 100 (max 0 (times_d ar (minus_d ar (over_d ar short long) 1) 50)))"

definition volatility_risk_specified :: "real list \<Rightarrow> real" where
  "volatility_risk_specified w =
     (let short = population_std (drop (length w - 10) w);
          long = max (population_std w) 1
      in min 100 (max 0 ((short / long - 1) * 50)))"

definition smoothed_of :: "DecisionTrace \<Rightarrow> real" where
  \<comment> \<open>The smoothed score \<open>alpha * target + (1 - alpha) * previous\<close>, read off a trace.\<close>
  "smoothed_of tr = smoothing_alpha tr * pre_smooth_score tr
                    + (1 - smoothing_alpha tr) * previous_score tr"

definition inactive_chain :: CausalSequence where
  "inactive_chain = \<lparr>active = False, steps = [], catalyst_id = None,
                      narrative = No_narrative, risk_assessment = No_assessment\<rparr>"

section \<open>Concrete inputs\<close>

definition quiet_tick :: NormalizedMarketTick where
  "quiet_tick =
     \<lparr>exchange_timestamp = 0, received_timestamp = 0, processing_timestamp = 0,
      price = 100, volume_24h = 0, bids = [], asks = [],
      trades = \<lparr>buy_volume = 0, sell_volume = 0, buy_count = 0, sell_count = 0,
                large_trades = []\<rparr>,
      mid_price = 100, spread = 0, spread_bps = 0, total_depth = 5,
      is_valid = True, data_quality = GOOD\<rparr>"

definition quiet_env :: Env where
  "quiet_env = \<lparr>now_trace = 0, now_stress = 0, now_trigger = (\<lambda>k. 0), random = 0\<rparr>"

definition scenario_B_signals :: "SignalType \<Rightarrow> SignalOutput" where
  "scenario_B_signals k =
     (defaultSignal k 0)\<lparr>sig_value := (if k = LIQUIDITY then 80 else 0),
                         triggered := (k = LIQUIDITY)\<rparr>"

definition spike_prices :: "real list" where
  "spike_prices = replicate 150 100 @ [99, 101, 99, 101, 99, 101, 99, 101, 99]"

definition spike_engine :: AnalyticsEngine where
  "spike_engine =
     new_AnalyticsEngine\<lparr>priceBuffer := pushAll spike_prices (new_CircularBuffer 300)\<rparr>"

definition spike_tick :: NormalizedMarketTick where
  "spike_tick = quiet_tick\<lparr>price := 101\<rparr>"

definition large_sell :: "real \<Rightarrow> Trade" where
  "large_sell q = \<lparr>trade_id = 1, trade_price = 100, quantity = q, trade_timestamp = 0, side = Sell\<rparr>"

definition block_sale_tick :: "real \<Rightarrow> NormalizedMarketTick" where
  \<comment> \<open>The quiet tick with one large sell trade of the given quantity.\<close>
  "block_sale_tick q =
     quiet_tick\<lparr>trades := \<lparr>buy_volume = 0, sell_volume = 0, buy_count = 0, sell_count = 0,
                            large_trades = [large_sell q]\<rparr>\<rparr>"

definition later_env :: Env where
  "later_env = \<lparr>now_trace = 7, now_stress = 7, now_trigger = (\<lambda>k. 7), random = 0\<rparr>"

definition stress_at :: "StressLevel \<Rightarrow> int \<Rightarrow> nat \<Rightarrow> StressScore" where
  "stress_at lvl sc n =
     \<lparr>score = sc, stress_raw_score = 0, level = lvl, color = stress_color lvl,
      stress_signals_aligned = n, stress_confidence = LOW,
      breakdown = \<lparr>liquidity = 0, flow = 0, volatility = 0, forcedSelling = 0\<rparr>,
      stress_timestamp = 0\<rparr>"

section \<open>Facts about the buffer\<close>

lemma thenR_Inr [simp]: "thenR (Inr x) f = f x"
  by (simp add: thenR_def)

lemma thenR_Inl [simp]: "thenR (Inl e) f = Inl e"
  by (simp add: thenR_def)

lemma divide_checked_nonzero [simp]: "b \<noteq> 0 \<Longrightarrow> divide_checked a b = Inr (a / b)"
  by (simp add: divide_checked_def)

lemma foldl_plus_sum_list: "foldl (\<lambda>acc val. acc + val) a xs = a + sum_list (xs :: real list)"
  by (induction xs arbitrary: a) simp_all

lemma mean_value:
  "mean b = Inr (if buffer b = [] then 0 else sum_list (buffer b) / real (length (buffer b)))"
  by (simp add: mean_def foldl_plus_sum_list)

lemma getAll_rotate:
  assumes "h \<le> length xs"
  shows "map (\<lambda>i. xs ! ((h + i) mod length xs)) [0..<length xs] = drop h xs @ take h xs"
proof (rule nth_equalityI)
  show "length (map (\<lambda>i. xs ! ((h + i) mod length xs)) [0..<length xs])
        = length (drop h xs @ take h xs)"
    using assms by simp
next
  fix i
  assume "i < length (map (\<lambda>i. xs ! ((h + i) mod length xs)) [0..<length xs])"
  then have i: "i < length xs" by simp
  show "map (\<lambda>i. xs ! ((h + i) mod length xs)) [0..<length xs] ! i
        = (drop h xs @ take h xs) ! i"
  proof (cases "i < length xs - h")
    case True
    then have "(h + i) mod length xs = h + i" by simp
    with True i assms show ?thesis by (simp add: nth_append)
  next
    case False
    with i assms have "h + i - length xs < length xs" "length xs \<le> h + i" by simp_all
    then have "(h + i) mod length xs = h + i - length xs"
      by (metis le_mod_geq mod_less)
    with False i assms show ?thesis
      by (simp add: nth_append) (metis add.commute)
  qed
qed

lemma buffer_ok_new: "0 < n \<Longrightarrow> buffer_ok (new_CircularBuffer n)"
  by (simp add: buffer_ok_def new_CircularBuffer_def)

lemma getAll_chronological:
  assumes "buffer_ok b"
  shows "getAll b = chronological b"
proof -
  have "head b \<le> length (buffer b)"
    using assms by (cases "length (buffer b) < maxSize b") (simp_all add: buffer_ok_def)
  then show ?thesis
    unfolding getAll_def chronological_def Let_def by (rule getAll_rotate)
qed

lemma push_ok: "buffer_ok b \<Longrightarrow> buffer_ok (push x b)"
  by (auto simp: buffer_ok_def push_def array_store_def)

lemma push_maxSize [simp]: "maxSize (push x b) = maxSize b"
  by (simp add: push_def)

lemma push_length:
  "buffer_ok b \<Longrightarrow> length (buffer (push x b)) = min (Suc (length (buffer b))) (maxSize b)"
  by (auto simp: buffer_ok_def push_def array_store_def)

lemma push_chronological:
  assumes "buffer_ok b"
  shows "chronological (push x b)
         = (if length (buffer b) < maxSize b then chronological b @ [x]
            else tl (chronological b) @ [x])"
proof (cases "length (buffer b) < maxSize b")
  case True
  with assms show ?thesis
    by (simp add: buffer_ok_def push_def chronological_def)
next
  case False
  with assms have full: "length (buffer b) = maxSize b" and h: "head b < length (buffer b)"
    by (simp_all add: buffer_ok_def)
  define B where "B = buffer b"
  define h where "h = head b"
  have hB: "h < length B" using h by (simp add: B_def h_def)
  have old: "drop h B @ take h B = (B ! h) # drop (Suc h) B @ take h B"
    using hB by (simp add: Cons_nth_drop_Suc)
  have new: "drop ((h + 1) mod length B) (B[h := x]) @ take ((h + 1) mod length B) (B[h := x])
             = drop (Suc h) B @ take h B @ [x]"
  proof (cases "Suc h < length B")
    case True
    then show ?thesis using hB by (simp add: take_Suc_conv_app_nth)
  next
    case False
    with hB have e: "Suc h = length B" by simp
    then have "B[h := x] = take h B @ [x]"
      using hB by (metis drop_all le_refl upd_conv_take_nth_drop append_Nil2)
    with e show ?thesis by simp
  qed
  from False full hB old new show ?thesis
    by (simp add: push_def chronological_def array_store_def B_def h_def)
qed

lemma pushAll_ok: "buffer_ok b \<Longrightarrow> buffer_ok (pushAll xs b)"
  unfolding pushAll_def by (induction xs arbitrary: b) (simp_all add: push_ok)

lemma pushAll_maxSize [simp]: "maxSize (pushAll xs b) = maxSize b"
  unfolding pushAll_def by (induction xs arbitrary: b) simp_all

lemma pushAll_snoc: "pushAll (xs @ [x]) b = push x (pushAll xs b)"
  by (simp add: pushAll_def)

lemma new_maxSize [simp]: "maxSize (new_CircularBuffer n) = n"
  by (simp add: new_CircularBuffer_def)

lemma pushAll_new:
  assumes "0 < n"
  shows "length (buffer (pushAll xs (new_CircularBuffer n))) = min (length xs) n \<and>
         chronological (pushAll xs (new_CircularBuffer n)) = drop (length xs - n) xs"
proof (induction xs rule: rev_induct)
  case Nil
  show ?case by (simp add: pushAll_def new_CircularBuffer_def chronological_def)
next
  case (snoc x xs)
  let ?b = "pushAll xs (new_CircularBuffer n)"
  have ok: "buffer_ok ?b" using assms by (simp add: pushAll_ok buffer_ok_new)
  have len: "length (buffer ?b) = min (length xs) n" using snoc by simp
  have chr: "chronological ?b = drop (length xs - n) xs" using snoc by simp
  have l: "length (buffer (push x ?b)) = min (length (xs @ [x])) n"
    using push_length [OF ok, of x] len by (simp add: new_CircularBuffer_def)
  have c: "chronological (push x ?b) = drop (length (xs @ [x]) - n) (xs @ [x])"
  proof (cases "length xs < n")
    case True
    then show ?thesis using push_chronological [OF ok, of x] len chr by simp
  next
    case False
    then have "Suc (length xs) - n = Suc (length xs - n)" by simp
    with False show ?thesis
      using push_chronological [OF ok, of x] len chr assms
      by (simp add: drop_Suc tl_drop)
  qed
  from l c show ?case by (simp only: pushAll_snoc)
qed

section \<open>Facts about the stages of a tick\<close>

lemma foldl_sq_sum_list:
  "foldl (\<lambda>a b. a + (b - m)\<^sup>2) a xs = a + (\<Sum>x\<leftarrow>xs. (x - m)\<^sup>2)" for m :: real
  by (induction xs arbitrary: a) simp_all

lemma reduce1_plus: "xs \<noteq> [] \<Longrightarrow> reduce1 (\<lambda>a b. a + b) xs = Inr (sum_list (xs :: real list))"
  by (cases xs) (simp_all add: reduce1_def foldl_plus_sum_list)

lemma getStd_value: "xs \<noteq> [] \<Longrightarrow> getStd xs = Inr (population_std xs)"
  by (simp add: getStd_def reduce1_plus population_std_def foldl_sq_sum_list Let_def)

lemma getStd_empty: "getStd [] = Inl TypeError"
  by (simp add: getStd_def reduce1_def)

lemma guarded_div:
  "(if b = 0 then Inr d else thenR (divide_checked a b) f) = (if b = 0 then Inr d else f (a / b))"
  by simp

lemma if_Inr: "(if c then Inr x else Inr y) = Inr (if c then x else y)"
  by simp

lemma processLiquidity_value:
  "processLiquidity e tick =
     (let lb = push (total_depth tick) (liquidityBuffer e);
          baseline = (if buffer lb = [] then 0 else sum_list (buffer lb) / real (length (buffer lb)));
          depthChange = (if baseline = 0 then 0 else (total_depth tick - baseline) / baseline * 100);
          risk = (if depthChange \<ge> 0 then 0 else min 100 ((- depthChange / 40) * 100))
      in Inr (\<lparr>sig_name = LIQUIDITY,
                  sig_value = Math_round risk,
                  severity = getSeverity risk,
                  triggered = (risk > 60),
                  raw_metrics = [(''Depth'', total_depth tick), (''Delta Mean'', depthChange)],
                  explanation = (if risk > 60 then Liquidity_hole \<bar>depthChange\<bar>
                                 else Depth_within_stable_range),
                  confidence = determineConfidence (real (size_buf lb)) 60 20,
                  sig_timestamp = processing_timestamp tick\<rparr>,
                 e\<lparr>liquidityBuffer := lb\<rparr>))"
  by (simp only: processLiquidity_def mean_value Let_def thenR_Inr guarded_div if_Inr)

lemma processFlow_total: "\<exists>s. processFlow tick = Inr s"
  by (simp add: processFlow_def Let_def)

lemma processVolatility_total: "\<exists>s e'. processVolatility e tick = Inr (s, e')"
proof -
  let ?p = "getAll (push (price tick) (priceBuffer e))"
  show ?thesis
  proof (cases "length ?p < 20")
    case True
    then show ?thesis by (simp add: processVolatility_def Let_def)
  next
    case False
    then have "?p \<noteq> []" "slice_last 10 ?p \<noteq> []" by (auto simp: slice_last_def)
    with False show ?thesis
      by (simp add: processVolatility_def Let_def getStd_value)
  qed
qed

lemma weightContribution_value:
  "weightContribution r sg =
     Inr \<lparr>wc_signal = sig_name sg, weight = weights (sig_name sg), raw_value = sig_value sg,
          contribution = real_of_int (sig_value sg) * weights (sig_name sg),
          pct_of_total = (if r > 0 then real_of_int (sig_value sg) * weights (sig_name sg) / r * 100 else 0)\<rparr>"
  by (simp add: weightContribution_def Let_def)

lemma mapR_weightContribution:
  "mapR (weightContribution r) xs =
     Inr (map (\<lambda>sg. \<lparr>wc_signal = sig_name sg, weight = weights (sig_name sg),
                       raw_value = sig_value sg,
                       contribution = real_of_int (sig_value sg) * weights (sig_name sg),
                       pct_of_total = (if r > 0 then real_of_int (sig_value sg) * weights (sig_name sg) / r * 100 else 0)\<rparr>) xs)"
  by (induction xs) (simp_all add: weightContribution_value)

lemma sort_key_case:
  "xs \<noteq> [] \<Longrightarrow> (case sort_key f xs of [] \<Rightarrow> a | d # _ \<Rightarrow> g d) = g (hd (sort_key f xs))"
  by (cases "sort_key f xs") (auto dest!: arg_cong [where f = length])

lemma four_signals_case:
  "(case sort_key f (map h (map sigs signal_keys)) of [] \<Rightarrow> a | d # _ \<Rightarrow> g d)
   = g (hd (sort_key f (map h (map sigs signal_keys))))"
  by (rule sort_key_case) (simp add: signal_keys_def)

lemma avg_of_four:
  "divide_checked x (real (length (map f (map sigs signal_keys)))) = Inr (x / 4)"
  by (simp add: signal_keys_def)

lemma calculateStressWithTrace_value:
  "calculateStressWithTrace e sigs tick env =
     (let sigArray = map sigs signal_keys;
          rawStress =
            real_of_int (sig_value (sigs LIQUIDITY)) * weights LIQUIDITY +
            real_of_int (sig_value (sigs FLOW)) * weights FLOW +
            real_of_int (sig_value (sigs VOLATILITY)) * weights VOLATILITY +
            real_of_int (sig_value (sigs FORCED_SELLING)) * weights FORCED_SELLING;
          activeSignals = length (filter triggered sigArray);
          shockMultiplier = 1.0 + real activeSignals * 0.08;
          targetStress = min 100 (rawStress * shockMultiplier);
          alpha = (if targetStress > previousStress e then 0.35 else 0.15);
          smoothedStress = alpha * targetStress + (1 - alpha) * previousStress e;
          finalScore = Math_round smoothedStress;
          lvl = classifyLevel smoothedStress;
          avgConf = foldl (\<lambda>a b. a + b) 0 (map confValue sigArray) / 4;
          globalConfidence =
               (if avgConf > 2.5 then HIGH else if avgConf > 1.5 then MEDIUM else LOW);
          wcs = map (\<lambda>sg. \<lparr>wc_signal = sig_name sg, weight = weights (sig_name sg),
                       raw_value = sig_value sg,
                       contribution = real_of_int (sig_value sg) * weights (sig_name sg),
                       pct_of_total = (if rawStress > 0 then real_of_int (sig_value sg) * weights (sig_name sg) / rawStress * 100 else 0)\<rparr>) sigArray;
          dominant = hd (sort_key (\<lambda>c. - contribution c) wcs);
          tr = \<lparr>weight_contributions = wcs,
                           raw_score = rawStress,
                           signals_aligned = activeSignals,
                           shock_multiplier = shockMultiplier,
                           pre_smooth_score = targetStress,
                           smoothing_alpha = alpha,
                           previous_score = previousStress e,
                           final_score = finalScore,
                           confidence_reasons = 
              [(LIQUIDITY, Depth_samples (size_buf (liquidityBuffer e))),
               (VOLATILITY, Price_ticks (size_buf (priceBuffer e))),
               (FLOW, Volume_density),
               (FORCED_SELLING, Trade_frequency)],
                           audit_narrative = \<lparr>narr_dominant = dominant,
                           narr_raw = rawStress,
                           narr_shock = (if activeSignals > 0
                                         then Some (shockMultiplier, activeSignals, targetStress)
                                         else None),
                           narr_rising = (targetStress > previousStress e),
                           narr_alpha = alpha,
                           narr_fast_track = (alpha = 0.35),
                           narr_final = finalScore,
                           narr_level = lvl,
                           narr_confidence = globalConfidence\<rparr>,
                           trace_timestamp = now_trace env\<rparr>
      in Inr ((\<lparr>score = finalScore,
                           stress_raw_score = rawStress,
                           level = lvl,
                           color = stress_color lvl,
                           stress_signals_aligned = activeSignals,
                           stress_confidence = globalConfidence,
                           breakdown =
                             \<lparr>liquidity = sig_value (sigs LIQUIDITY),
                              flow = sig_value (sigs FLOW),
                              volatility = sig_value (sigs VOLATILITY),
                              forcedSelling = sig_value (sigs FORCED_SELLING)\<rparr>,
                           stress_timestamp = now_stress env\<rparr>, tr),
              e\<lparr>previousStress := smoothedStress, lastTrace := Some tr\<rparr>))"
  by (simp only: calculateStressWithTrace_def Let_def avg_of_four thenR_Inr
        mapR_weightContribution four_signals_case)

lemma divide_checked_guard:
  "divide_checked a (if c \<noteq> 0 then c else 1) = Inr (a / (if c \<noteq> 0 then c else 1))"
  "divide_checked a (if c \<noteq> 0 then c else 0.01) = Inr (a / (if c \<noteq> 0 then c else 0.01))"
  by simp_all

lemma processFlow_value:
  "processFlow tick =
     (let totalVol = buy_volume (trades tick) + sell_volume (trades tick)
      in if totalVol = 0 then Inr (defaultSignal FLOW (processing_timestamp tick))
         else let sellRatio = sell_volume (trades tick) / totalVol;
                  risk = max 0 ((sellRatio - 0.5) * 200)
              in Inr \<lparr>sig_name = FLOW,
                      sig_value = Math_round risk,
                      severity = getSeverity risk,
                      triggered = (risk > 65),
                      raw_metrics = [(''Sell %'', sellRatio * 100),
                        (''Imbalance'', sellRatio / (if 1 - sellRatio \<noteq> 0 then 1 - sellRatio else 0.01))],
                      explanation = (if risk > 65 then Aggressive_market_selling
                                     else Transaction_flow_balanced),
                      confidence = determineConfidence totalVol 2.0 0.5,
                      sig_timestamp = processing_timestamp tick\<rparr>)"
proof (cases "buy_volume (trades tick) + sell_volume (trades tick) = 0")
  case True
  then show ?thesis by (simp only: processFlow_def Let_def if_True simp_thms)
next
  case False
  then have d: "divide_checked (sell_volume (trades tick))
                  (buy_volume (trades tick) + sell_volume (trades tick))
                = Inr (sell_volume (trades tick) / (buy_volume (trades tick) + sell_volume (trades tick)))"
    by simp
  from False show ?thesis
    by (simp only: processFlow_def Let_def if_False d thenR_Inr divide_checked_guard simp_thms)
qed

lemma processVolatility_value:
  "processVolatility e tick =
     (let pb = push (price tick) (priceBuffer e);
          prices = getAll pb
      in if length prices < 20
         then Inr (defaultSignal VOLATILITY (processing_timestamp tick), e\<lparr>priceBuffer := pb\<rparr>)
         else let stdShort = population_std (slice_last 10 prices);
                  stdAll = population_std prices;
                  stdLong = (if stdAll \<noteq> 0 then stdAll else 1);
                  ratio = stdShort / stdLong;
                  risk = min 100 (max 0 ((ratio - 1) * 50))
              in Inr (\<lparr>sig_name = VOLATILITY,
                             sig_value = Math_round risk,
                             severity = getSeverity risk,
                             triggered = (risk > 55),
                             raw_metrics = [(''Vol Ratio'', ratio), (''Price Std'', stdShort)],
                             explanation = (if risk > 55 then Price_instability
                                            else Price_volatility_within_bounds),
                             confidence = determineConfidence (real (length prices)) 50 30,
                             sig_timestamp = processing_timestamp tick\<rparr>,
                            e\<lparr>priceBuffer := pb\<rparr>))"
proof (cases "length (getAll (push (price tick) (priceBuffer e))) < 20")
  case True
  then show ?thesis by (simp only: processVolatility_def Let_def if_True simp_thms)
next
  case False
  let ?p = "getAll (push (price tick) (priceBuffer e))"
  from False have "?p \<noteq> []" "slice_last 10 ?p \<noteq> []" by (auto simp: slice_last_def)
  then have g: "getStd ?p = Inr (population_std ?p)"
               "getStd (slice_last 10 ?p) = Inr (population_std (slice_last 10 ?p))"
    by (simp_all add: getStd_value)
  from False show ?thesis
    by (simp only: processVolatility_def Let_def if_False g thenR_Inr divide_checked_guard simp_thms)
qed

lemma processTick_stages:
  "\<exists>l e1 f v e2 st tr e3 cs e4 ev e5.
     processLiquidity e tick = Inr (l, e1) \<and>
     processFlow tick = Inr f \<and>
     processVolatility e1 tick = Inr (v, e2) \<and>
     calculateStressWithTrace e2 (signals_of l f v (processForcedSelling tick)) tick env
       = Inr ((st, tr), e3) \<and>
     buildCausalSequence e3 st (signals_of l f v (processForcedSelling tick)) env = (cs, e4) \<and>
     detectCriticalEvent e4 tick st cs env = (ev, e5) \<and>
     processTick e tick env =
       Inr (\<lparr>signals = signals_of l f v (processForcedSelling tick), stress = st, causal = cs,
             criticalEvent = ev, trace = tr\<rparr>, e5)"
proof -
  obtain l e1 where 1: "processLiquidity e tick = Inr (l, e1)"
    unfolding processLiquidity_value Let_def by blast
  obtain f where 2: "processFlow tick = Inr f"
    using processFlow_total by blast
  obtain v e2 where 3: "processVolatility e1 tick = Inr (v, e2)"
    using processVolatility_total by blast
  let ?sigs = "signals_of l f v (processForcedSelling tick)"
  obtain st tr e3 where 4: "calculateStressWithTrace e2 ?sigs tick env = Inr ((st, tr), e3)"
    unfolding calculateStressWithTrace_value Let_def by blast
  obtain cs e4 where 5: "buildCausalSequence e3 st ?sigs env = (cs, e4)"
    by (cases "buildCausalSequence e3 st ?sigs env")
  obtain ev e5 where 6: "detectCriticalEvent e4 tick st cs env = (ev, e5)"
    by (cases "detectCriticalEvent e4 tick st cs env")
  from 1 2 3 4 5 6 have "processTick e tick env =
       Inr (\<lparr>signals = ?sigs, stress = st, causal = cs, criticalEvent = ev, trace = tr\<rparr>, e5)"
    by (simp add: processTick_def)
  with 1 2 3 4 5 6 show ?thesis by blast
qed

lemma push_onto_empty:
  "buffer b = [] \<Longrightarrow> head b = 0 \<Longrightarrow> buffer (push x b) = [x]"
  by (simp add: push_def array_store_def)

lemma Math_round_0 [simp]: "Math_round 0 = 0"
  by (simp add: Math_round_def)

lemma first_liquidity_sample:
  assumes "buffer (liquidityBuffer e) = []" and "head (liquidityBuffer e) = 0"
  shows "processLiquidity e tick =
           Inr (\<lparr>sig_name = LIQUIDITY, sig_value = 0, severity = STABLE, triggered = False,
                  raw_metrics = [(''Depth'', total_depth tick), (''Delta Mean'', 0)],
                  explanation = Depth_within_stable_range, confidence = LOW,
                  sig_timestamp = processing_timestamp tick\<rparr>,
                e\<lparr>liquidityBuffer := push (total_depth tick) (liquidityBuffer e)\<rparr>)"
  using push_onto_empty [OF assms, of "total_depth tick"]
  by (simp add: processLiquidity_value Let_def getSeverity_def determineConfidence_def
        size_buf_def)

lemma signals_of_simps [simp]:
  "signals_of l f v s LIQUIDITY = l"
  "signals_of l f v s FLOW = f"
  "signals_of l f v s VOLATILITY = v"
  "signals_of l f v s FORCED_SELLING = s"
  by (simp_all add: signals_of_def)

lemma getAll_push_pushAll:
  assumes "0 < n"
  shows "getAll (push x (pushAll ps (new_CircularBuffer n))) = drop (Suc (length ps) - n) (ps @ [x])"
proof -
  have ok: "buffer_ok (pushAll (ps @ [x]) (new_CircularBuffer n))"
    using assms by (simp add: pushAll_ok buffer_ok_new)
  show ?thesis
    using pushAll_new [OF assms, of "ps @ [x]"] getAll_chronological [OF ok]
    by (simp add: pushAll_snoc)
qed

lemma sqrt_sixteenth: "sqrt (1 / 16) = 1 / 4"
  by (rule real_sqrt_unique) (simp_all add: power2_eq_square)

lemma spike_window:
  "getAll (push (price spike_tick) (priceBuffer spike_engine))
   = replicate 150 100 @ [99, 101, 99, 101, 99, 101, 99, 101, 99, 101]"
  by (simp add: spike_engine_def spike_tick_def quiet_tick_def getAll_push_pushAll
        spike_prices_def)

lemma spike_std_long:
  "population_std (replicate 150 100 @ [99, 101, 99, 101, 99, 101, 99, 101, 99, 101]) = 1 / 4"
  by (simp add: population_std_def Let_def sum_list_replicate sqrt_sixteenth o_def)

lemma spike_std_short:
  "population_std [99, 101, 99, 101, 99, 101, 99, 101, 99, 101] = 1"
  by (simp add: population_std_def Let_def)

lemma processLiquidity_frame:
  assumes "processLiquidity e tick = Inr (l, e1)"
  shows "sig_name l = LIQUIDITY"
    and "e1 = e\<lparr>liquidityBuffer := push (total_depth tick) (liquidityBuffer e)\<rparr>"
  using assms by (auto simp: processLiquidity_value Let_def)

lemma processFlow_frame:
  assumes "processFlow tick = Inr f"
  shows "sig_name f = FLOW"
  using assms by (auto simp: processFlow_value Let_def defaultSignal_def split: if_splits)

lemma processVolatility_frame:
  assumes "processVolatility e tick = Inr (v, e2)"
  shows "sig_name v = VOLATILITY"
    and "e2 = e\<lparr>priceBuffer := push (price tick) (priceBuffer e)\<rparr>"
  using assms by (auto simp: processVolatility_value Let_def defaultSignal_def split: if_splits)

lemma processForcedSelling_name: "sig_name (processForcedSelling tick) = FORCED_SELLING"
  by (simp add: processForcedSelling_def Let_def)

lemma buildCausalSequence_frame:
  "snd (buildCausalSequence e st sigs env)
   = e\<lparr>triggerOrder := triggerOrder (snd (buildCausalSequence e st sigs env))\<rparr>"
  by (simp add: buildCausalSequence_def Let_def)

lemma detectCriticalEvent_state:
  "snd (detectCriticalEvent e tick st cs env) =
     e\<lparr>previousLevel := level st, previousSignalsAligned := stress_signals_aligned st\<rparr>"
  by (simp add: detectCriticalEvent_def Let_def)

lemma detectCriticalEvent_fires:
  "(fst (detectCriticalEvent e tick st cs env) \<noteq> None) =
     ((getStressRank (level st) > getStressRank (previousLevel e) \<and>
       getStressRank (level st) \<ge> 2) \<or>
      (stress_signals_aligned st > previousSignalsAligned e \<and> score st > 60))"
  by (simp add: detectCriticalEvent_def Let_def)

lemma processTick_run:
  "\<exists>out e3 order.
     processTick e tick env =
       Inr (out, e3\<lparr>triggerOrder := order,
                    previousLevel := level (stress out),
                    previousSignalsAligned := stress_signals_aligned (stress out)\<rparr>) \<and>
     (\<forall>k. sig_name (signals out k) = k) \<and>
     calculateStressWithTrace
       (e\<lparr>liquidityBuffer := push (total_depth tick) (liquidityBuffer e),
          priceBuffer := push (price tick) (priceBuffer e)\<rparr>) (signals out) tick env
       = Inr ((stress out, trace out), e3) \<and>
     (causal out, e3\<lparr>triggerOrder := order\<rparr>)
       = buildCausalSequence e3 (stress out) (signals out) env \<and>
     criticalEvent out =
       fst (detectCriticalEvent (e3\<lparr>triggerOrder := order\<rparr>) tick (stress out) (causal out) env) \<and>
     signals out FORCED_SELLING = processForcedSelling tick \<and>
     processLiquidity e tick =
       Inr (signals out LIQUIDITY,
            e\<lparr>liquidityBuffer := push (total_depth tick) (liquidityBuffer e)\<rparr>) \<and>
     processFlow tick = Inr (signals out FLOW) \<and>
     processVolatility (e\<lparr>liquidityBuffer := push (total_depth tick) (liquidityBuffer e)\<rparr>) tick =
       Inr (signals out VOLATILITY,
            e\<lparr>liquidityBuffer := push (total_depth tick) (liquidityBuffer e),
              priceBuffer := push (price tick) (priceBuffer e)\<rparr>)"
proof -
  obtain l e1 f v e2 st tr e3 cs e4 ev e5 where
    l: "processLiquidity e tick = Inr (l, e1)" and
    f: "processFlow tick = Inr f" and
    v: "processVolatility e1 tick = Inr (v, e2)" and
    c: "calculateStressWithTrace e2 (signals_of l f v (processForcedSelling tick)) tick env
          = Inr ((st, tr), e3)" and
    b: "buildCausalSequence e3 st (signals_of l f v (processForcedSelling tick)) env = (cs, e4)" and
    d: "detectCriticalEvent e4 tick st cs env = (ev, e5)" and
    p: "processTick e tick env =
       Inr (\<lparr>signals = signals_of l f v (processForcedSelling tick), stress = st, causal = cs,
             criticalEvent = ev, trace = tr\<rparr>, e5)"
    using processTick_stages [of e tick env] by blast
  let ?sigs = "signals_of l f v (processForcedSelling tick)"
  have names: "\<forall>k. sig_name (?sigs k) = k"
  proof
    fix k show "sig_name (?sigs k) = k"
      using processLiquidity_frame(1) [OF l] processFlow_frame [OF f]
        processVolatility_frame(1) [OF v] processForcedSelling_name [of tick]
      by (cases k) simp_all
  qed
  have e1: "e1 = e\<lparr>liquidityBuffer := push (total_depth tick) (liquidityBuffer e)\<rparr>"
    by (rule processLiquidity_frame(2) [OF l])
  have e2: "e2 = e\<lparr>liquidityBuffer := push (total_depth tick) (liquidityBuffer e),
                    priceBuffer := push (price tick) (priceBuffer e)\<rparr>"
    using processVolatility_frame(2) [OF v] e1 by simp
  obtain order where e4: "e4 = e3\<lparr>triggerOrder := order\<rparr>"
    using buildCausalSequence_frame [of e3 st ?sigs env] b by (metis snd_conv)
  have e5: "e5 = e4\<lparr>previousLevel := level st, previousSignalsAligned := stress_signals_aligned st\<rparr>"
    using detectCriticalEvent_state [of e4 tick st cs env] d by simp
  have ev: "ev = fst (detectCriticalEvent e4 tick st cs env)"
    using d by simp
  show ?thesis
    apply (rule exI [of _ "\<lparr>signals = ?sigs, stress = st, causal = cs,
             criticalEvent = ev, trace = tr\<rparr>"])
    apply (rule exI [of _ e3])
    apply (rule exI [of _ order])
    using p names c b ev l f v e1 e2 e4 e5 by simp
qed

lemma aggregator_result:
  assumes "raw =
            real_of_int (sig_value (sigs LIQUIDITY)) * weights LIQUIDITY +
            real_of_int (sig_value (sigs FLOW)) * weights FLOW +
            real_of_int (sig_value (sigs VOLATILITY)) * weights VOLATILITY +
            real_of_int (sig_value (sigs FORCED_SELLING)) * weights FORCED_SELLING"
    and "act = length (filter triggered (map sigs signal_keys))"
    and "mult = 1.0 + real act * 0.08"
    and "target = min 100 (raw * mult)"
    and "alpha = (if target > previousStress e then 0.35 else 0.15)"
    and "smooth = alpha * target + (1 - alpha) * previousStress e"
    and "avgConf = foldl (\<lambda>a b. a + b) 0 (map confValue (map sigs signal_keys)) / 4"
    and "gc = (if avgConf > 2.5 then HIGH else if avgConf > 1.5 then MEDIUM else LOW)"
    and "wcs = map (\<lambda>sg. \<lparr>wc_signal = sig_name sg, weight = weights (sig_name sg),
                       raw_value = sig_value sg,
                       contribution = real_of_int (sig_value sg) * weights (sig_name sg),
                       pct_of_total = (if raw > 0 then real_of_int (sig_value sg) * weights (sig_name sg) / raw * 100 else 0)\<rparr>)
                 (map sigs signal_keys)"
    and "tr = \<lparr>weight_contributions = wcs,
               raw_score = raw,
               signals_aligned = act,
               shock_multiplier = mult,
               pre_smooth_score = target,
               smoothing_alpha = alpha,
               previous_score = previousStress e,
               final_score = Math_round smooth,
               confidence_reasons =
                 [(LIQUIDITY, Depth_samples (size_buf (liquidityBuffer e))),
                  (VOLATILITY, Price_ticks (size_buf (priceBuffer e))),
                  (FLOW, Volume_density),
                  (FORCED_SELLING, Trade_frequency)],
               audit_narrative =
                 \<lparr>narr_dominant = hd (sort_key (\<lambda>c. - contribution c) wcs),
                  narr_raw = raw,
                  narr_shock = (if act > 0 then Some (mult, act, target) else None),
                  narr_rising = (target > previousStress e),
                  narr_alpha = alpha,
                  narr_fast_track = (alpha = 0.35),
                  narr_final = Math_round smooth,
                  narr_level = classifyLevel smooth,
                  narr_confidence = gc\<rparr>,
               trace_timestamp = now_trace env\<rparr>"
    and "st = \<lparr>score = Math_round smooth,
               stress_raw_score = raw,
               level = classifyLevel smooth,
               color = stress_color (classifyLevel smooth),
               stress_signals_aligned = act,
               stress_confidence = gc,
               breakdown =
                 \<lparr>liquidity = sig_value (sigs LIQUIDITY),
                  flow = sig_value (sigs FLOW),
                  volatility = sig_value (sigs VOLATILITY),
                  forcedSelling = sig_value (sigs FORCED_SELLING)\<rparr>,
               stress_timestamp = now_stress env\<rparr>"
  shows "calculateStressWithTrace e sigs tick env
         = Inr ((st, tr), e\<lparr>previousStress := smooth, lastTrace := Some tr\<rparr>)"
  unfolding assms
  by (simp only: calculateStressWithTrace_def Let_def avg_of_four thenR_Inr
        mapR_weightContribution four_signals_case)

lemma aggregator_projections:
  assumes "calculateStressWithTrace e sigs tick env = Inr ((st, tr), e')"
  shows "previous_score tr = previousStress e"
    and "confidence_reasons tr =
       [(LIQUIDITY, Depth_samples (size_buf (liquidityBuffer e))),
        (VOLATILITY, Price_ticks (size_buf (priceBuffer e))),
        (FLOW, Volume_density),
        (FORCED_SELLING, Trade_frequency)]"
    and "previousStress e' = smoothing_alpha tr * pre_smooth_score tr
                              + (1 - smoothing_alpha tr) * previous_score tr"
    and "score st = Math_round (previousStress e')"
    and "final_score tr = score st"
    and "level st = classifyLevel (previousStress e')"
    and "smoothing_alpha tr = (if pre_smooth_score tr > previousStress e then 0.35 else 0.15)"
    and "pre_smooth_score tr = min 100 (raw_score tr * shock_multiplier tr)"
    and "shock_multiplier tr = 1.0 + real (signals_aligned tr) * 0.08"
    and "signals_aligned tr = length (filter triggered (map sigs signal_keys))"
    and "stress_signals_aligned st = signals_aligned tr"
    and "raw_score tr =
            real_of_int (sig_value (sigs LIQUIDITY)) * weights LIQUIDITY +
            real_of_int (sig_value (sigs FLOW)) * weights FLOW +
            real_of_int (sig_value (sigs VOLATILITY)) * weights VOLATILITY +
            real_of_int (sig_value (sigs FORCED_SELLING)) * weights FORCED_SELLING"
    and "stress_raw_score st = raw_score tr"
    and "trace_timestamp tr = now_trace env"
    and "stress_timestamp st = now_stress env"
    and "e' = e\<lparr>previousStress := previousStress e', lastTrace := Some tr\<rparr>"
    and "weight_contributions tr =
           map (\<lambda>sg. \<lparr>wc_signal = sig_name sg, weight = weights (sig_name sg),
                       raw_value = sig_value sg,
                       contribution = real_of_int (sig_value sg) * weights (sig_name sg),
                       pct_of_total =
                         (if raw_score tr > 0
                          then real_of_int (sig_value sg) * weights (sig_name sg) / raw_score tr * 100
                          else 0)\<rparr>) (map sigs signal_keys)"
proof -
  define raw where "raw =
            real_of_int (sig_value (sigs LIQUIDITY)) * weights LIQUIDITY +
            real_of_int (sig_value (sigs FLOW)) * weights FLOW +
            real_of_int (sig_value (sigs VOLATILITY)) * weights VOLATILITY +
            real_of_int (sig_value (sigs FORCED_SELLING)) * weights FORCED_SELLING"
  define act where "act = length (filter triggered (map sigs signal_keys))"
  define mult :: real where "mult = 1.0 + real act * 0.08"
  define target where "target = min 100 (raw * mult)"
  define alpha :: real where "alpha = (if target > previousStress e then 0.35 else 0.15)"
  define smooth where "smooth = alpha * target + (1 - alpha) * previousStress e"
  define avgConf where
    "avgConf = foldl (\<lambda>a b. a + b) 0 (map confValue (map sigs signal_keys)) / 4"
  define gc where
    "gc = (if avgConf > 2.5 then HIGH else if avgConf > 1.5 then MEDIUM else LOW)"
  define wcs where "wcs = map (\<lambda>sg. \<lparr>wc_signal = sig_name sg, weight = weights (sig_name sg),
                       raw_value = sig_value sg,
                       contribution = real_of_int (sig_value sg) * weights (sig_name sg),
                       pct_of_total = (if raw > 0 then real_of_int (sig_value sg) * weights (sig_name sg) / raw * 100 else 0)\<rparr>)
                 (map sigs signal_keys)"
  define tr0 where "tr0 = \<lparr>weight_contributions = wcs,
               raw_score = raw,
               signals_aligned = act,
               shock_multiplier = mult,
               pre_smooth_score = target,
               smoothing_alpha = alpha,
               previous_score = previousStress e,
               final_score = Math_round smooth,
               confidence_reasons =
                 [(LIQUIDITY, Depth_samples (size_buf (liquidityBuffer e))),
                  (VOLATILITY, Price_ticks (size_buf (priceBuffer e))),
                  (FLOW, Volume_density),
                  (FORCED_SELLING, Trade_frequency)],
               audit_narrative =
                 \<lparr>narr_dominant = hd (sort_key (\<lambda>c. - contribution c) wcs),
                  narr_raw = raw,
                  narr_shock = (if act > 0 then Some (mult, act, target) else None),
                  narr_rising = (target > previousStress e),
                  narr_alpha = alpha,
                  narr_fast_track = (alpha = 0.35),
                  narr_final = Math_round smooth,
                  narr_level = classifyLevel smooth,
                  narr_confidence = gc\<rparr>,
               trace_timestamp = now_trace env\<rparr>"
  define st0 where "st0 = \<lparr>score = Math_round smooth,
               stress_raw_score = raw,
               level = classifyLevel smooth,
               color = stress_color (classifyLevel smooth),
               stress_signals_aligned = act,
               stress_confidence = gc,
               breakdown =
                 \<lparr>liquidity = sig_value (sigs LIQUIDITY),
                  flow = sig_value (sigs FLOW),
                  volatility = sig_value (sigs VOLATILITY),
                  forcedSelling = sig_value (sigs FORCED_SELLING)\<rparr>,
               stress_timestamp = now_stress env\<rparr>"
  have "calculateStressWithTrace e sigs tick env
         = Inr ((st0, tr0), e\<lparr>previousStress := smooth, lastTrace := Some tr0\<rparr>)"
    by (rule aggregator_result [OF raw_def act_def mult_def target_def alpha_def smooth_def
          avgConf_def gc_def wcs_def tr0_def st0_def])
  with assms have eq: "st = st0" "tr = tr0"
    "e' = e\<lparr>previousStress := smooth, lastTrace := Some tr0\<rparr>" by auto
  show "previous_score tr = previousStress e" by (simp add: eq tr0_def)
  show "confidence_reasons tr =
       [(LIQUIDITY, Depth_samples (size_buf (liquidityBuffer e))),
        (VOLATILITY, Price_ticks (size_buf (priceBuffer e))),
        (FLOW, Volume_density),
        (FORCED_SELLING, Trade_frequency)]" by (simp add: eq tr0_def)
  show "previousStress e' = smoothing_alpha tr * pre_smooth_score tr
                              + (1 - smoothing_alpha tr) * previous_score tr"
    by (simp add: eq tr0_def smooth_def)
  show "score st = Math_round (previousStress e')" by (simp add: eq st0_def)
  show "final_score tr = score st" by (simp add: eq st0_def tr0_def)
  show "level st = classifyLevel (previousStress e')" by (simp add: eq st0_def)
  show "smoothing_alpha tr = (if pre_smooth_score tr > previousStress e then 0.35 else 0.15)"
    by (simp add: eq tr0_def alpha_def)
  show "pre_smooth_score tr = min 100 (raw_score tr * shock_multiplier tr)"
    by (simp add: eq tr0_def target_def)
  show "shock_multiplier tr = 1.0 + real (signals_aligned tr) * 0.08"
    by (simp add: eq tr0_def mult_def)
  show "signals_aligned tr = length (filter triggered (map sigs signal_keys))"
    by (simp add: eq tr0_def act_def)
  show "stress_signals_aligned st = signals_aligned tr" by (simp add: eq tr0_def st0_def)
  show "raw_score tr =
            real_of_int (sig_value (sigs LIQUIDITY)) * weights LIQUIDITY +
            real_of_int (sig_value (sigs FLOW)) * weights FLOW +
            real_of_int (sig_value (sigs VOLATILITY)) * weights VOLATILITY +
            real_of_int (sig_value (sigs FORCED_SELLING)) * weights FORCED_SELLING"
    by (simp add: eq tr0_def raw_def)
  show "stress_raw_score st = raw_score tr" by (simp add: eq tr0_def st0_def)
  show "trace_timestamp tr = now_trace env" by (simp add: eq tr0_def)
  show "stress_timestamp st = now_stress env" by (simp add: eq st0_def)
  show "e' = e\<lparr>previousStress := previousStress e', lastTrace := Some tr\<rparr>"
    by (simp add: eq)
  show "weight_contributions tr =
           map (\<lambda>sg. \<lparr>wc_signal = sig_name sg, weight = weights (sig_name sg),
                       raw_value = sig_value sg,
                       contribution = real_of_int (sig_value sg) * weights (sig_name sg),
                       pct_of_total =
                         (if raw_score tr > 0
                          then real_of_int (sig_value sg) * weights (sig_name sg) / raw_score tr * 100
                          else 0)\<rparr>) (map sigs signal_keys)"
    by (simp add: eq tr0_def wcs_def)
qed




lemma Math_round_nonneg: "0 \<le> x \<Longrightarrow> 0 \<le> Math_round x"
  by (simp add: Math_round_def)

lemma Math_round_le_100: "x \<le> 100 \<Longrightarrow> Math_round x \<le> 100"
  unfolding Math_round_def by linarith

lemma liquidity_value_nonneg:
  assumes "processLiquidity e tick = Inr (l, e1)"
  shows "0 \<le> sig_value l"
proof -
  have r: "0 \<le> (if dc \<ge> 0 then 0 else min 100 ((- dc / 40) * 100))" for dc :: real
    by auto
  have "0 \<le> sig_value (fst (projr (processLiquidity e tick)))"
    by (simp only: processLiquidity_value Let_def sum.sel fst_conv SignalOutput.select_convs)
       (intro Math_round_nonneg r)
  with assms show ?thesis by simp
qed

lemma flow_value_nonneg:
  assumes "processFlow tick = Inr f"
  shows "0 \<le> sig_value f"
proof (cases "buy_volume (trades tick) + sell_volume (trades tick) = 0")
  case True
  with assms show ?thesis by (auto simp: processFlow_value defaultSignal_def)
next
  case False
  have "0 \<le> sig_value (projr (processFlow tick))"
    by (simp only: processFlow_value Let_def False if_False sum.sel SignalOutput.select_convs)
       (intro Math_round_nonneg max.cobounded1)
  with assms show ?thesis by simp
qed

lemma volatility_value_nonneg:
  assumes "processVolatility e tick = Inr (v, e2)"
  shows "0 \<le> sig_value v"
proof (cases "length (getAll (push (price tick) (priceBuffer e))) < 20")
  case True
  with assms show ?thesis by (auto simp: processVolatility_value defaultSignal_def Let_def)
next
  case False
  have r: "0 \<le> min 100 (max 0 x)" for x :: real by simp
  have "0 \<le> sig_value (fst (projr (processVolatility e tick)))"
    by (simp only: processVolatility_value Let_def False if_False sum.sel fst_conv
          SignalOutput.select_convs)
       (intro Math_round_nonneg r)
  with assms show ?thesis by simp
qed

lemma foldl_quantity_nonneg:
  "0 \<le> a \<Longrightarrow> \<forall>t\<in>set ts. 0 \<le> quantity t \<Longrightarrow> 0 \<le> foldl (\<lambda>s t. s + quantity t) a ts"
  by (induction ts arbitrary: a) simp_all

lemma forced_value_nonneg:
  assumes "\<forall>t\<in>set (large_trades (trades tick)). side t = Sell \<longrightarrow> 0 \<le> quantity t"
  shows "0 \<le> sig_value (processForcedSelling tick)"
proof -
  have "0 \<le> foldl (\<lambda>s t. s + quantity t) 0
               (filter (\<lambda>t. side t = Sell) (large_trades (trades tick)))"
    using assms by (intro foldl_quantity_nonneg) auto
  then show ?thesis
    by (auto simp: processForcedSelling_def Let_def intro!: Math_round_nonneg)
qed

lemma processTick_effect:
  assumes "processTick e tick env = Inr (out, e')"
  shows "previous_score (trace out) = previousStress e"
    and "previousStress e' = smoothed_of (trace out)"
    and "score (stress out) = Math_round (previousStress e')"
    and "liquidityBuffer e' = push (total_depth tick) (liquidityBuffer e)"
    and "priceBuffer e' = push (price tick) (priceBuffer e)"
    and "confidence_reasons (trace out) =
       [(LIQUIDITY, Depth_samples (size_buf (push (total_depth tick) (liquidityBuffer e)))),
        (VOLATILITY, Price_ticks (size_buf (push (price tick) (priceBuffer e)))),
        (FLOW, Volume_density),
        (FORCED_SELLING, Trade_frequency)]"
    and "calculateStressWithTrace
       (e\<lparr>liquidityBuffer := push (total_depth tick) (liquidityBuffer e),
          priceBuffer := push (price tick) (priceBuffer e)\<rparr>) (signals out) tick env
       = Inr ((stress out, trace out),
              e\<lparr>liquidityBuffer := push (total_depth tick) (liquidityBuffer e),
                priceBuffer := push (price tick) (priceBuffer e),
                previousStress := previousStress e', lastTrace := Some (trace out)\<rparr>)"
    and "0 \<le> sig_value (signals out LIQUIDITY)"
    and "0 \<le> sig_value (signals out FLOW)"
    and "0 \<le> sig_value (signals out VOLATILITY)"
    and "signals out FORCED_SELLING = processForcedSelling tick"
    and "processLiquidity e tick =
           Inr (signals out LIQUIDITY,
                e\<lparr>liquidityBuffer := push (total_depth tick) (liquidityBuffer e)\<rparr>)"
    and "processFlow tick = Inr (signals out FLOW)"
    and "processVolatility
           (e\<lparr>liquidityBuffer := push (total_depth tick) (liquidityBuffer e)\<rparr>) tick =
           Inr (signals out VOLATILITY,
                e\<lparr>liquidityBuffer := push (total_depth tick) (liquidityBuffer e),
                  priceBuffer := push (price tick) (priceBuffer e)\<rparr>)"
    and "\<forall>k. sig_name (signals out k) = k"
    and "previousLevel e' = level (stress out)"
    and "previousSignalsAligned e' = stress_signals_aligned (stress out)"
    and "(causal out, e'\<lparr>previousLevel := previousLevel e,
                          previousSignalsAligned := previousSignalsAligned e\<rparr>)
         = buildCausalSequence
             (e\<lparr>liquidityBuffer := push (total_depth tick) (liquidityBuffer e),
                priceBuffer := push (price tick) (priceBuffer e),
                previousStress := previousStress e', lastTrace := Some (trace out)\<rparr>)
             (stress out) (signals out) env"
proof -
  let ?eb = "e\<lparr>liquidityBuffer := push (total_depth tick) (liquidityBuffer e),
          priceBuffer := push (price tick) (priceBuffer e)\<rparr>"
  obtain out0 e3 order where
    p: "processTick e tick env =
       Inr (out0, e3\<lparr>triggerOrder := order,
                    previousLevel := level (stress out0),
                    previousSignalsAligned := stress_signals_aligned (stress out0)\<rparr>)" and
    c: "calculateStressWithTrace ?eb (signals out0) tick env
       = Inr ((stress out0, trace out0), e3)" and
    z: "signals out0 FORCED_SELLING = processForcedSelling tick" and
    n: "\<forall>k. sig_name (signals out0 k) = k" and
    b: "(causal out0, e3\<lparr>triggerOrder := order\<rparr>)
       = buildCausalSequence e3 (stress out0) (signals out0) env" and
    l: "processLiquidity e tick =
       Inr (signals out0 LIQUIDITY,
            e\<lparr>liquidityBuffer := push (total_depth tick) (liquidityBuffer e)\<rparr>)" and
    f: "processFlow tick = Inr (signals out0 FLOW)" and
    v: "processVolatility (e\<lparr>liquidityBuffer := push (total_depth tick) (liquidityBuffer e)\<rparr>) tick =
       Inr (signals out0 VOLATILITY, ?eb)"
    using processTick_run [of e tick env] by blast
  from assms p have o: "out0 = out" and
    e': "e' = e3\<lparr>triggerOrder := order,
                    previousLevel := level (stress out),
                    previousSignalsAligned := stress_signals_aligned (stress out)\<rparr>"
    by auto
  note pr = aggregator_projections [OF c [unfolded o]]
  have e3: "e3 = ?eb\<lparr>previousStress := previousStress e3, lastTrace := Some (trace out)\<rparr>"
    by (rule pr(16))
  have ps: "previousStress e' = previousStress e3" by (simp add: e')
  show "previous_score (trace out) = previousStress e" using pr(1) by simp
  show "previousStress e' = smoothed_of (trace out)"
    unfolding ps smoothed_of_def by (rule pr(3))
  show "score (stress out) = Math_round (previousStress e')"
    unfolding ps by (rule pr(4))
  show "liquidityBuffer e' = push (total_depth tick) (liquidityBuffer e)"
    by (subst e', subst e3) simp
  show "priceBuffer e' = push (price tick) (priceBuffer e)"
    by (subst e', subst e3) simp
  show "confidence_reasons (trace out) =
       [(LIQUIDITY, Depth_samples (size_buf (push (total_depth tick) (liquidityBuffer e)))),
        (VOLATILITY, Price_ticks (size_buf (push (price tick) (priceBuffer e)))),
        (FLOW, Volume_density),
        (FORCED_SELLING, Trade_frequency)]"
    using pr(2) by simp
  show "calculateStressWithTrace ?eb (signals out) tick env
       = Inr ((stress out, trace out),
              ?eb\<lparr>previousStress := previousStress e', lastTrace := Some (trace out)\<rparr>)"
    using c [unfolded o] e3 ps by simp
  show "0 \<le> sig_value (signals out LIQUIDITY)"
    using liquidity_value_nonneg [OF l] o by simp
  show "0 \<le> sig_value (signals out FLOW)"
    using flow_value_nonneg [OF f] o by simp
  show "0 \<le> sig_value (signals out VOLATILITY)"
    using volatility_value_nonneg [OF v] o by simp
  show "signals out FORCED_SELLING = processForcedSelling tick"
    using z o by simp
  show "processLiquidity e tick =
           Inr (signals out LIQUIDITY,
                e\<lparr>liquidityBuffer := push (total_depth tick) (liquidityBuffer e)\<rparr>)"
    using l o by simp
  show "processFlow tick = Inr (signals out FLOW)"
    using f o by simp
  show "processVolatility
           (e\<lparr>liquidityBuffer := push (total_depth tick) (liquidityBuffer e)\<rparr>) tick =
           Inr (signals out VOLATILITY, ?eb)"
    using v o by simp
  show "\<forall>k. sig_name (signals out k) = k"
    using n o by simp
  show "previousLevel e' = level (stress out)" by (simp add: e')
  show "previousSignalsAligned e' = stress_signals_aligned (stress out)" by (simp add: e')
  have same: "previousLevel e3 = previousLevel e"
    "previousSignalsAligned e3 = previousSignalsAligned e"
    by (subst e3, simp)+
  have "e'\<lparr>previousLevel := previousLevel e,
           previousSignalsAligned := previousSignalsAligned e\<rparr> = e3\<lparr>triggerOrder := order\<rparr>"
    unfolding e' using same by simp
  moreover have "e3 = ?eb\<lparr>previousStress := previousStress e', lastTrace := Some (trace out)\<rparr>"
    using e3 ps by simp
  ultimately show "(causal out, e'\<lparr>previousLevel := previousLevel e,
                          previousSignalsAligned := previousSignalsAligned e\<rparr>)
         = buildCausalSequence
             (?eb\<lparr>previousStress := previousStress e', lastTrace := Some (trace out)\<rparr>)
             (stress out) (signals out) env"
    using b o by simp
qed

lemma smoothing_in_range:
  fixes raw prev target alpha mult :: real
  assumes "0 \<le> raw" and "0 \<le> prev" and "prev \<le> 100"
    and "mult = 1.0 + real n * 0.08"
    and "target = min 100 (raw * mult)"
    and "alpha = (if target > prev then 0.35 else 0.15)"
  shows "0 \<le> alpha * target + (1 - alpha) * prev"
    and "alpha * target + (1 - alpha) * prev \<le> 100"
proof -
  have m: "0 \<le> mult" using assms(4) by simp
  have t: "0 \<le> target" "target \<le> 100"
    using assms(1,5) m by simp_all
  have a: "0 \<le> alpha" "alpha \<le> 1" using assms(6) by (simp_all split: if_splits)
  show "0 \<le> alpha * target + (1 - alpha) * prev"
    using a t assms(2) by simp
  have "alpha * target + (1 - alpha) * prev \<le> alpha * 100 + (1 - alpha) * 100"
    using a t assms(3) by (intro add_mono mult_left_mono) simp_all
  then show "alpha * target + (1 - alpha) * prev \<le> 100"
    by (simp add: algebra_simps)
qed

lemma processTick_score_range:
  assumes p: "processTick e tick env = Inr (out, e')"
    and lo: "0 \<le> previousStress e" and hi: "previousStress e \<le> 100"
    and q: "\<forall>t\<in>set (large_trades (trades tick)). side t = Sell \<longrightarrow> 0 \<le> quantity t"
  shows "0 \<le> previousStress e'" and "previousStress e' \<le> 100"
    and "0 \<le> score (stress out)" and "score (stress out) \<le> 100"
proof -
  note eff = processTick_effect [OF p]
  note pr = aggregator_projections [OF eff(7)]
  have z: "0 \<le> sig_value (signals out FORCED_SELLING)"
    using forced_value_nonneg [OF q] eff(11) by simp
  have raw: "0 \<le> raw_score (trace out)"
    unfolding pr(12) using eff(8,9,10) z by simp
  have prev: "previous_score (trace out) = previousStress e" by (rule eff(1))
  have alpha: "smoothing_alpha (trace out)
      = (if pre_smooth_score (trace out) > previousStress e then 0.35 else 0.15)"
    using pr(7) by simp
  have sm: "previousStress e' = smoothing_alpha (trace out) * pre_smooth_score (trace out)
                              + (1 - smoothing_alpha (trace out)) * previousStress e"
    using eff(2) prev by (simp add: smoothed_of_def)
  show lo': "0 \<le> previousStress e'"
    unfolding sm by (rule smoothing_in_range(1) [OF raw lo hi pr(9) pr(8) alpha])
  show hi': "previousStress e' \<le> 100"
    unfolding sm by (rule smoothing_in_range(2) [OF raw lo hi pr(9) pr(8) alpha])
  show "0 \<le> score (stress out)"
    unfolding eff(3) by (rule Math_round_nonneg [OF lo'])
  show "score (stress out) \<le> 100"
    unfolding eff(3) by (rule Math_round_le_100 [OF hi'])
qed

lemma processTick_total: "\<exists>out e'. processTick e tick env = Inr (out, e')"
  using processTick_stages [of e tick env] by blast

lemma processTicks_invariant:
  assumes "0 \<le> previousStress e" and "previousStress e \<le> 100"
    and "\<forall>(tick, env)\<in>set ticks.
           \<forall>t\<in>set (large_trades (trades tick)). side t = Sell \<longrightarrow> 0 \<le> quantity t"
  shows "\<exists>outs e'. processTicks e ticks = Inr (outs, e') \<and> length outs = length ticks \<and>
           (\<forall>out\<in>set outs. 0 \<le> score (stress out) \<and> score (stress out) \<le> 100) \<and>
           0 \<le> previousStress e' \<and> previousStress e' \<le> 100 \<and>
           (ticks \<noteq> [] \<longrightarrow>
              previous_score (trace (hd outs)) = previousStress e \<and>
              previousStress e' = smoothed_of (trace (last outs)) \<and>
              score (stress (last outs)) = Math_round (previousStress e')) \<and>
           (\<forall>i. Suc i < length outs \<longrightarrow>
              previous_score (trace (outs ! Suc i)) = smoothed_of (trace (outs ! i)))"
  using assms
proof (induction ticks arbitrary: e)
  case Nil
  then show ?case by simp
next
  case (Cons x rest)
  obtain tick env where x: "x = (tick, env)" by (cases x)
  obtain out e1 where p: "processTick e tick env = Inr (out, e1)"
    using processTick_total by blast
  have q: "\<forall>t\<in>set (large_trades (trades tick)). side t = Sell \<longrightarrow> 0 \<le> quantity t"
    using Cons.prems(3) x by simp
  note rng = processTick_score_range [OF p Cons.prems(1,2) q]
  note eff = processTick_effect [OF p]
  have rest: "\<forall>(tick, env)\<in>set rest.
           \<forall>t\<in>set (large_trades (trades tick)). side t = Sell \<longrightarrow> 0 \<le> quantity t"
    using Cons.prems(3) by simp
  from Cons.IH [OF rng(1,2) rest] obtain outs e' where
    r: "processTicks e1 rest = Inr (outs, e')" and len: "length outs = length rest" and
    sc: "\<forall>out\<in>set outs. 0 \<le> score (stress out) \<and> score (stress out) \<le> 100" and
    st: "0 \<le> previousStress e'" "previousStress e' \<le> 100" and
    lst: "rest \<noteq> [] \<longrightarrow>
              previous_score (trace (hd outs)) = previousStress e1 \<and>
              previousStress e' = smoothed_of (trace (last outs)) \<and>
              score (stress (last outs)) = Math_round (previousStress e')" and
    ch: "\<forall>i. Suc i < length outs \<longrightarrow>
              previous_score (trace (outs ! Suc i)) = smoothed_of (trace (outs ! i))"
    by blast
  have run: "processTicks e (x # rest) = Inr (out # outs, e')"
    using p r x by simp
  have last: "previousStress e' = smoothed_of (trace (last (out # outs))) \<and>
              score (stress (last (out # outs))) = Math_round (previousStress e')"
  proof (cases "rest = []")
    case True
    with r len have "outs = []" "e' = e1" by simp_all
    with eff(2,3) show ?thesis by simp
  next
    case False
    with len have "outs \<noteq> []" by auto
    with lst False show ?thesis by simp
  qed
  have chain: "\<forall>i. Suc i < length (out # outs) \<longrightarrow>
              previous_score (trace ((out # outs) ! Suc i)) = smoothed_of (trace ((out # outs) ! i))"
  proof (intro allI impI)
    fix i assume i: "Suc i < length (out # outs)"
    show "previous_score (trace ((out # outs) ! Suc i)) = smoothed_of (trace ((out # outs) ! i))"
    proof (cases i)
      case 0
      with i len have ne: "rest \<noteq> []" "outs \<noteq> []" by auto
      then have "previous_score (trace (hd outs)) = previousStress e1" using lst by simp
      with 0 ne eff(2) show ?thesis by (simp add: hd_conv_nth)
    next
      case (Suc j)
      with i ch show ?thesis by simp
    qed
  qed
  show ?case
    apply (rule exI [of _ "out # outs"])
    apply (rule exI [of _ e'])
    using run len sc st rng(3,4) eff(1) last chain by simp
qed

lemma forced_selling_block_sale:
  "sig_value (processForcedSelling (block_sale_tick (-10))) = - 200"
  "\<not> triggered (processForcedSelling (block_sale_tick (-10)))"
  by (simp_all add: processForcedSelling_def block_sale_tick_def large_sell_def Let_def
        Math_round_def)

lemma default_signal_fields [simp]:
  "sig_value (defaultSignal k ts) = 0" "\<not> triggered (defaultSignal k ts)"
  by (simp_all add: defaultSignal_def)

lemma quiet_aggregation:
  assumes c: "calculateStressWithTrace e sigs tick env = Inr ((st, tr), e')"
    and q: "\<forall>k. sig_value (sigs k) = 0 \<and> \<not> triggered (sigs k)"
    and p: "previousStress e = 0"
  shows "previousStress e' = 0"
proof -
  note pr = aggregator_projections [OF c]
  have raw: "raw_score tr = 0" unfolding pr(12) by (simp add: q)
  have target: "pre_smooth_score tr = 0" unfolding pr(8) raw by simp
  show ?thesis unfolding pr(3) target pr(1) p by simp
qed

lemma quiet_tick_signals:
  assumes p: "processTick e quiet_tick env = Inr (out, e')"
    and l: "buffer (liquidityBuffer e) = replicate n 5" "head (liquidityBuffer e) = 0"
           "n < maxSize (liquidityBuffer e)" "n < 19"
    and v: "length (buffer (priceBuffer e)) < 19"
           "length (buffer (priceBuffer e)) < maxSize (priceBuffer e)"
  shows "signals out LIQUIDITY =
           \<lparr>sig_name = LIQUIDITY, sig_value = 0, severity = STABLE, triggered = False,
            raw_metrics = [(''Depth'', 5), (''Delta Mean'', 0)],
            explanation = Depth_within_stable_range, confidence = LOW, sig_timestamp = 0\<rparr>"
    and "signals out FLOW = defaultSignal FLOW 0"
    and "signals out VOLATILITY = defaultSignal VOLATILITY 0"
    and "signals out FORCED_SELLING = processForcedSelling quiet_tick"
    and "buffer (liquidityBuffer e') = replicate (Suc n) 5"
    and "head (liquidityBuffer e') = 0"
    and "maxSize (liquidityBuffer e') = maxSize (liquidityBuffer e)"
    and "length (buffer (priceBuffer e')) = Suc (length (buffer (priceBuffer e)))"
    and "maxSize (priceBuffer e') = maxSize (priceBuffer e)"
proof -
  note eff = processTick_effect [OF p]
  have d: "total_depth quiet_tick = 5" "processing_timestamp quiet_tick = 0"
    "price quiet_tick = 100"
    by (simp_all add: quiet_tick_def)
  have b: "buffer (push 5 (liquidityBuffer e)) = replicate (Suc n) 5"
    using l by (simp add: push_def replicate_append_same)
  show "buffer (liquidityBuffer e') = replicate (Suc n) 5"
    unfolding eff(4) d by (rule b)
  show "head (liquidityBuffer e') = 0"
    unfolding eff(4) d using l by (simp add: push_def)
  show "maxSize (liquidityBuffer e') = maxSize (liquidityBuffer e)"
    unfolding eff(4) by simp
  show "length (buffer (priceBuffer e')) = Suc (length (buffer (priceBuffer e)))"
    unfolding eff(5) using v by (simp add: push_def)
  show "maxSize (priceBuffer e') = maxSize (priceBuffer e)"
    unfolding eff(5) by simp
  have m: "sum_list (replicate (Suc n) (5::real)) / real (length (replicate (Suc n) (5::real))) = 5"
  proof -
    have "0 < 1 + real n" by (simp add: add_pos_nonneg)
    then have "(5 + real n * 5) / (1 + real n) = 5" by (simp add: field_simps)
    then show ?thesis
      by (simp add: sum_list_replicate del: replicate.simps)
  qed
  have "processLiquidity e quiet_tick =
          Inr (\<lparr>sig_name = LIQUIDITY, sig_value = 0, severity = STABLE, triggered = False,
            raw_metrics = [(''Depth'', 5), (''Delta Mean'', 0)],
            explanation = Depth_within_stable_range, confidence = LOW, sig_timestamp = 0\<rparr>,
               e\<lparr>liquidityBuffer := push 5 (liquidityBuffer e)\<rparr>)"
    unfolding processLiquidity_value Let_def d b m size_buf_def
    using l(4) by (simp add: getSeverity_def determineConfidence_def del: replicate.simps)
  with eff(12) show "signals out LIQUIDITY =
           \<lparr>sig_name = LIQUIDITY, sig_value = 0, severity = STABLE, triggered = False,
            raw_metrics = [(''Depth'', 5), (''Delta Mean'', 0)],
            explanation = Depth_within_stable_range, confidence = LOW, sig_timestamp = 0\<rparr>"
    by simp
  show "signals out FLOW = defaultSignal FLOW 0"
    using eff(13) by (simp add: processFlow_value quiet_tick_def)
  show "signals out VOLATILITY = defaultSignal VOLATILITY 0"
    using eff(14) v
    by (simp add: processVolatility_value Let_def getAll_def push_def d)
  show "signals out FORCED_SELLING = processForcedSelling quiet_tick"
    by (rule eff(11))
qed

lemma quiet_tick_step:
  assumes p: "processTick e quiet_tick env = Inr (out, e')"
    and l: "buffer (liquidityBuffer e) = replicate n 5" "head (liquidityBuffer e) = 0"
           "n < maxSize (liquidityBuffer e)" "n < 19"
    and v: "length (buffer (priceBuffer e)) < 19"
           "length (buffer (priceBuffer e)) < maxSize (priceBuffer e)"
    and s: "previousStress e = 0"
  shows "previousStress e' = 0"
    and "confidence_reasons (trace out) =
       [(LIQUIDITY, Depth_samples (Suc n)),
        (VOLATILITY, Price_ticks (Suc (length (buffer (priceBuffer e))))),
        (FLOW, Volume_density),
        (FORCED_SELLING, Trade_frequency)]"
proof -
  note eff = processTick_effect [OF p]
  note sg = quiet_tick_signals [OF p l v]
  have z: "sig_value (processForcedSelling quiet_tick) = 0"
          "\<not> triggered (processForcedSelling quiet_tick)"
    by (simp_all add: processForcedSelling_def quiet_tick_def Let_def)
  have q: "\<forall>k. sig_value (signals out k) = 0 \<and> \<not> triggered (signals out k)"
  proof
    fix k show "sig_value (signals out k) = 0 \<and> \<not> triggered (signals out k)"
      by (cases k) (simp_all add: sg(1,2,3,4) z)
  qed
  have "previousStress
          (e\<lparr>liquidityBuffer := push (total_depth quiet_tick) (liquidityBuffer e),
             priceBuffer := push (price quiet_tick) (priceBuffer e),
             previousStress := previousStress e', lastTrace := Some (trace out)\<rparr>) = 0"
    by (rule quiet_aggregation [OF eff(7) q]) (simp add: s)
  then show "previousStress e' = 0" by simp
  have "size_buf (push (total_depth quiet_tick) (liquidityBuffer e)) = Suc n"
    using sg(5) unfolding eff(4) by (simp add: size_buf_def)
  moreover have "size_buf (push (price quiet_tick) (priceBuffer e))
                 = Suc (length (buffer (priceBuffer e)))"
    using sg(8) unfolding eff(5) by (simp add: size_buf_def)
  ultimately show "confidence_reasons (trace out) =
       [(LIQUIDITY, Depth_samples (Suc n)),
        (VOLATILITY, Price_ticks (Suc (length (buffer (priceBuffer e))))),
        (FLOW, Volume_density),
        (FORCED_SELLING, Trade_frequency)]"
    unfolding eff(6) by simp
qed

section \<open>Facts about the evaluator in rounded arithmetic\<close>

lemma divide_checked_in_exact: "divide_checked_in exact_arith = divide_checked"
  by (intro ext) (simp add: divide_checked_in_def divide_checked_def exact_arith_def)

lemma getStd_in_exact: "getStd_in exact_arith = getStd"
  unfolding getStd_in_def getStd_def divide_checked_in_exact
  by (simp only: exact_arith_def arith.select_convs)

lemma processVolatility_in_exact: "processVolatility_in exact_arith = processVolatility"
  unfolding processVolatility_in_def processVolatility_def getStd_in_exact
    divide_checked_in_exact
  by (simp only: exact_arith_def arith.select_convs)

lemma getStd_in_value:
  assumes "xs \<noteq> []"
  shows "getStd_in ar xs = Inr (population_std_in ar xs)"
proof -
  obtain x rest where xs: "xs = x # rest" using assms by (cases xs) auto
  have n: "real (length xs) \<noteq> 0" using assms by simp
  have r: "reduce1 (\<lambda>a b. plus_d ar a b) xs = Inr (foldl (plus_d ar) (hd xs) (tl xs))"
    by (simp add: xs reduce1_def)
  have d: "divide_checked_in ar a (real (length xs)) = Inr (over_d ar a (real (length xs)))" for a
    using n by (simp add: divide_checked_in_def)
  show ?thesis
    by (simp only: getStd_in_def r d thenR_Inr population_std_in_def Let_def)
qed

lemma population_std_in_exact:
  "xs \<noteq> [] \<Longrightarrow> population_std_in exact_arith xs = population_std xs"
  by (cases xs)
     (simp_all add: population_std_in_def population_std_def exact_arith_def Let_def
        foldl_plus_sum_list foldl_sq_sum_list)

lemma processVolatility_in_value:
  "processVolatility_in ar e tick =
     (let pb = push (price tick) (priceBuffer e);
          prices = getAll pb
      in if length prices < 20
         then Inr (defaultSignal VOLATILITY (processing_timestamp tick), e\<lparr>priceBuffer := pb\<rparr>)
         else let stdShort = population_std_in ar (slice_last 10 prices);
                  stdAll = population_std_in ar prices;
                  stdLong = (if stdAll \<noteq> 0 then stdAll else 1);
                  ratio = over_d ar stdShort stdLong;
                  risk = min 100 (max 0 (times_d ar (minus_d ar ratio 1) 50))
              in Inr (\<lparr>sig_name = VOLATILITY,
                             sig_value = Math_round risk,
                             severity = getSeverity risk,
                             triggered = (risk > 55),
                             raw_metrics = [(''Vol Ratio'', ratio), (''Price Std'', stdShort)],
                             explanation = (if risk > 55 then Price_instability
                                            else Price_volatility_within_bounds),
                             confidence = determineConfidence (real (length prices)) 50 30,
                             sig_timestamp = processing_timestamp tick\<rparr>,
                            e\<lparr>priceBuffer := pb\<rparr>))"
proof (cases "length (getAll (push (price tick) (priceBuffer e))) < 20")
  case True
  then show ?thesis by (simp only: processVolatility_in_def Let_def if_True simp_thms)
next
  case False
  let ?p = "getAll (push (price tick) (priceBuffer e))"
  from False have "?p \<noteq> []" "slice_last 10 ?p \<noteq> []" by (auto simp: slice_last_def)
  then have g: "getStd_in ar ?p = Inr (population_std_in ar ?p)"
               "getStd_in ar (slice_last 10 ?p) = Inr (population_std_in ar (slice_last 10 ?p))"
    by (simp_all add: getStd_in_value)
  have d: "divide_checked_in ar a (if c \<noteq> 0 then c else 1)
           = Inr (over_d ar a (if c \<noteq> 0 then c else 1))" for a c
    by (simp add: divide_checked_in_def)
  from False show ?thesis
    by (simp only: processVolatility_in_def Let_def if_False g thenR_Inr d simp_thms)
qed

section \<open>Facts about the causal chain\<close>

lemma recordTrigger_keeps: "set order \<subseteq> set (recordTrigger clock order s)"
  by (auto simp: recordTrigger_def)

lemma recordTrigger_new:
  "en \<in> set (recordTrigger clock order s) \<Longrightarrow>
   en \<in> set order \<or> trigger_timestamp en = clock (trigger_signal en)"
  by (auto simp: recordTrigger_def split: if_splits)

lemma recordTrigger_has: "sig_name s \<in> trigger_signal ` set (recordTrigger clock order s)"
proof (cases "find (\<lambda>t. trigger_signal t = sig_name s) order")
  case None
  then show ?thesis by (simp add: recordTrigger_def)
next
  case (Some en)
  then have "en \<in> set order" "trigger_signal en = sig_name s"
    by (auto simp: find_Some_iff)
  then have "sig_name s \<in> trigger_signal ` set order" by force
  with Some show ?thesis by (simp add: recordTrigger_def)
qed

lemma foldl_recordTrigger_keeps:
  "set order \<subseteq> set (foldl (recordTrigger clock) order ss)"
proof (induction ss arbitrary: order)
  case Nil
  show ?case by simp
next
  case (Cons s ss)
  have "set order \<subseteq> set (recordTrigger clock order s)" by (rule recordTrigger_keeps)
  also have "\<dots> \<subseteq> set (foldl (recordTrigger clock) (recordTrigger clock order s) ss)"
    by (rule Cons.IH)
  finally show ?case by simp
qed

lemma foldl_recordTrigger_new:
  "en \<in> set (foldl (recordTrigger clock) order ss) \<Longrightarrow>
   en \<in> set order \<or> trigger_timestamp en = clock (trigger_signal en)"
proof (induction ss arbitrary: order)
  case Nil
  then show ?case by simp
next
  case (Cons s ss)
  from Cons.prems have "en \<in> set (foldl (recordTrigger clock) (recordTrigger clock order s) ss)"
    by simp
  from Cons.IH [OF this] show ?case using recordTrigger_new by blast
qed

lemma foldl_recordTrigger_has:
  "s \<in> set ss \<Longrightarrow> sig_name s \<in> trigger_signal ` set (foldl (recordTrigger clock) order ss)"
proof (induction ss arbitrary: order)
  case Nil
  then show ?case by simp
next
  case (Cons a ss)
  show ?case
  proof (cases "s = a")
    case True
    have "sig_name a \<in> trigger_signal ` set (recordTrigger clock order a)"
      by (rule recordTrigger_has)
    then show ?thesis
      using foldl_recordTrigger_keeps [of "recordTrigger clock order a" clock ss] True by auto
  next
    case False
    with Cons.prems have "s \<in> set ss" by simp
    from Cons.IH [OF this] show ?thesis by simp
  qed
qed

lemma causalStep_fields [simp]:
  "step_signal (causalStep st sigs it) = trigger_signal (snd it)"
  "step_timestamp (causalStep st sigs it) = trigger_timestamp (snd it)"
  by (simp_all add: causalStep_def Let_def)

lemma buildCausalSequence_clear:
  assumes "\<forall>k. \<not> triggered (sigs k)"
  shows "buildCausalSequence e st sigs env = (inactive_chain, e\<lparr>triggerOrder := []\<rparr>)"
  using assms by (simp add: buildCausalSequence_def Let_def signal_keys_def inactive_chain_def)

lemma buildCausalSequence_active:
  assumes "filter triggered (map sigs signal_keys) \<noteq> []"
    and "ord = filter (\<lambda>t. triggered (sigs (trigger_signal t)))
                 (foldl (recordTrigger (now_trigger env)) (triggerOrder e)
                    (filter triggered (map sigs signal_keys)))"
  shows "triggerOrder (snd (buildCausalSequence e st sigs env)) = ord"
    and "steps (fst (buildCausalSequence e st sigs env))
         = map (causalStep st sigs) (enumerate 0 ord)"
  using assms(1) unfolding assms(2) by (simp_all add: buildCausalSequence_def Let_def)

lemma buildCausalSequence_entries:
  assumes b: "buildCausalSequence e st sigs env = (cs, e')"
  shows "\<forall>en\<in>set (triggerOrder e').
           en \<in> set (triggerOrder e) \<or>
           trigger_timestamp en = now_trigger env (trigger_signal en)"
    and "\<forall>s\<in>set (steps cs). \<exists>en\<in>set (triggerOrder e').
           step_signal s = trigger_signal en \<and> step_timestamp s = trigger_timestamp en"
    and "(\<forall>k. sig_name (sigs k) = k) \<Longrightarrow> triggered (sigs k) \<Longrightarrow>
           k \<in> step_signal ` set (steps cs)"
proof -
  define act where "act = filter triggered (map sigs signal_keys)"
  define app where "app = foldl (recordTrigger (now_trigger env)) (triggerOrder e) act"
  define ord where "ord = filter (\<lambda>t. triggered (sigs (trigger_signal t))) app"
  have ord: "ord = filter (\<lambda>t. triggered (sigs (trigger_signal t)))
                 (foldl (recordTrigger (now_trigger env)) (triggerOrder e)
                    (filter triggered (map sigs signal_keys)))"
    by (simp add: ord_def app_def act_def)
  have empty: "cs = inactive_chain \<and> triggerOrder e' = []" if "act = []"
  proof -
    from that have "\<forall>k. \<not> triggered (sigs k)"
    proof -
      { fix k
        have "k \<in> set signal_keys" by (cases k) (simp_all add: signal_keys_def)
        then have "\<not> triggered (sigs k)" using that unfolding act_def
          by (auto simp: filter_empty_conv) }
      then show ?thesis by blast
    qed
    from buildCausalSequence_clear [OF this, of e st env] b show ?thesis by simp
  qed
  have full: "triggerOrder e' = ord \<and> steps cs = map (causalStep st sigs) (enumerate 0 ord)"
    if "act \<noteq> []"
    using buildCausalSequence_active [OF that [unfolded act_def] ord, of st] b by simp
  have fresh: "en \<in> set (triggerOrder e) \<or>
                trigger_timestamp en = now_trigger env (trigger_signal en)"
    if "en \<in> set ord" for en
  proof -
    from that have "en \<in> set app" by (simp add: ord_def)
    then show ?thesis unfolding app_def by (rule foldl_recordTrigger_new)
  qed
  show "\<forall>en\<in>set (triggerOrder e').
           en \<in> set (triggerOrder e) \<or>
           trigger_timestamp en = now_trigger env (trigger_signal en)"
  proof (cases "act = []")
    case True
    with empty show ?thesis by simp
  next
    case False
    with full fresh show ?thesis by simp
  qed
  show "\<forall>s\<in>set (steps cs). \<exists>en\<in>set (triggerOrder e').
           step_signal s = trigger_signal en \<and> step_timestamp s = trigger_timestamp en"
  proof (cases "act = []")
    case True
    with empty show ?thesis by (simp add: inactive_chain_def)
  next
    case False
    show ?thesis
    proof
      fix x assume "x \<in> set (steps cs)"
      then obtain it where it: "it \<in> set (enumerate 0 ord)" and x: "x = causalStep st sigs it"
        using full [OF False] by auto
      obtain i en where ie: "it = (i, en)" by (cases it)
      with it have "en \<in> set ord" by (auto simp: in_set_enumerate_eq)
      with x ie full [OF False] show "\<exists>en\<in>set (triggerOrder e').
           step_signal x = trigger_signal en \<and> step_timestamp x = trigger_timestamp en"
        by auto
    qed
  qed
  show "k \<in> step_signal ` set (steps cs)"
    if names: "\<forall>k. sig_name (sigs k) = k" and trig: "triggered (sigs k)"
  proof -
    have k: "k \<in> set signal_keys" by (cases k) (simp_all add: signal_keys_def)
    with trig have mem: "sigs k \<in> set act" by (simp add: act_def)
    then have ne: "act \<noteq> []" by auto
    from foldl_recordTrigger_has [OF mem, of "now_trigger env" "triggerOrder e"] names
    obtain en where en: "en \<in> set app" "trigger_signal en = k"
      unfolding app_def by auto
    with trig have "en \<in> set ord" by (simp add: ord_def)
    then obtain i where i: "i < length ord" "ord ! i = en" by (auto simp: in_set_conv_nth)
    then have "(i, en) \<in> set (enumerate 0 ord)" by (simp add: in_set_enumerate_eq)
    then have "causalStep st sigs (i, en) \<in> set (steps cs)"
      using full [OF ne] by simp
    moreover have "step_signal (causalStep st sigs (i, en)) = k" using en by simp
    ultimately show ?thesis by force
  qed
qed

lemma processTick_causal:
  assumes p: "processTick e tick env = Inr (out, e')"
  shows "\<forall>en\<in>set (triggerOrder e').
           en \<in> set (triggerOrder e) \<or>
           trigger_timestamp en = now_trigger env (trigger_signal en)"
    and "\<forall>s\<in>set (steps (causal out)). \<exists>en\<in>set (triggerOrder e').
           step_signal s = trigger_signal en \<and> step_timestamp s = trigger_timestamp en"
    and "triggered (signals out k) \<Longrightarrow> k \<in> step_signal ` set (steps (causal out))"
    and "(\<forall>k. \<not> triggered (signals out k)) \<Longrightarrow>
           causal out = inactive_chain \<and> triggerOrder e' = []"
proof -
  note eff = processTick_effect [OF p]
  let ?ex = "e\<lparr>liquidityBuffer := push (total_depth tick) (liquidityBuffer e),
                priceBuffer := push (price tick) (priceBuffer e),
                previousStress := previousStress e', lastTrace := Some (trace out)\<rparr>"
  let ?e' = "e'\<lparr>previousLevel := previousLevel e,
                 previousSignalsAligned := previousSignalsAligned e\<rparr>"
  have b: "buildCausalSequence ?ex (stress out) (signals out) env = (causal out, ?e')"
    using eff(18) by simp
  note en = buildCausalSequence_entries [OF b]
  show "\<forall>en\<in>set (triggerOrder e').
           en \<in> set (triggerOrder e) \<or>
           trigger_timestamp en = now_trigger env (trigger_signal en)"
    using en(1) by simp
  show "\<forall>s\<in>set (steps (causal out)). \<exists>en\<in>set (triggerOrder e').
           step_signal s = trigger_signal en \<and> step_timestamp s = trigger_timestamp en"
    using en(2) by simp
  show "triggered (signals out k) \<Longrightarrow> k \<in> step_signal ` set (steps (causal out))"
    using en(3) [OF eff(15)] by simp
  show "causal out = inactive_chain \<and> triggerOrder e' = []"
    if "\<forall>k. \<not> triggered (signals out k)"
  proof -
    have "(causal out, ?e') = (inactive_chain, ?ex\<lparr>triggerOrder := []\<rparr>)"
      using buildCausalSequence_clear [OF that, of ?ex "stress out" env] b by simp
    then have c: "causal out = inactive_chain" and eq: "?e' = ?ex\<lparr>triggerOrder := []\<rparr>"
      by simp_all
    have "triggerOrder e' = triggerOrder ?e'" by simp
    also have "\<dots> = triggerOrder (?ex\<lparr>triggerOrder := []\<rparr>)" by (simp only: eq)
    also have "\<dots> = []" by simp
    finally show ?thesis using c by simp
  qed
qed

lemma processTicks_fresh:
  assumes "processTicks e later = Inr (outs, e')"
    and "snd ` set later \<subseteq> S"
    and "\<forall>en\<in>set (triggerOrder e).
           \<exists>env\<in>S. trigger_timestamp en = now_trigger env (trigger_signal en)"
  shows "(\<forall>en\<in>set (triggerOrder e').
            \<exists>env\<in>S. trigger_timestamp en = now_trigger env (trigger_signal en)) \<and>
         (\<forall>u\<in>set outs. \<forall>s\<in>set (steps (causal u)).
            \<exists>env\<in>S. step_timestamp s = now_trigger env (step_signal s)) \<and>
         (\<forall>u\<in>set outs. \<forall>k. triggered (signals u k) \<longrightarrow>
            k \<in> step_signal ` set (steps (causal u)))"
  using assms
proof (induction later arbitrary: e outs e')
  case Nil
  then show ?case by simp
next
  case (Cons x rest)
  obtain tick env where x: "x = (tick, env)" by (cases x)
  obtain out e1 where p: "processTick e tick env = Inr (out, e1)"
    using processTick_total by blast
  obtain outs1 e2 where r: "processTicks e1 rest = Inr (outs1, e2)"
    using Cons.prems(1) p x by (cases "processTicks e1 rest") auto
  from Cons.prems(1) p r x have os: "outs = out # outs1" and e': "e' = e2" by simp_all
  have env: "env \<in> S" using Cons.prems(2) x by auto
  note c = processTick_causal [OF p]
  have inv1: "\<forall>en\<in>set (triggerOrder e1).
           \<exists>env\<in>S. trigger_timestamp en = now_trigger env (trigger_signal en)"
    using c(1) Cons.prems(3) env by blast
  have steps1: "\<forall>s\<in>set (steps (causal out)).
            \<exists>env\<in>S. step_timestamp s = now_trigger env (step_signal s)"
    using c(2) inv1 by fastforce
  have rest: "snd ` set rest \<subseteq> S" using Cons.prems(2) by auto
  from Cons.IH [OF r rest inv1] steps1 c(3) show ?case
    unfolding os e' by simp
qed

section \<open>The claims\<close>

text \<open>
  Claim C1 (scenario B). With a stored previous score of 0, a liquidity signal of value 80
  that is triggered and three other signals of value 0 that are not, the aggregator
  computes a raw score of 28, one active signal, a shock multiplier of 1.08, a target of
  30.24, a smoothing coefficient of 0.35, a smoothed score of 10.584 (which it stores), a
  final score of 11 and the level STABLE.
\<close>

theorem scenario_B:
  assumes "previousStress e = 0"
    and "sig_value (sigs LIQUIDITY) = 80" and "triggered (sigs LIQUIDITY)"
    and "sig_value (sigs FLOW) = 0" and "\<not> triggered (sigs FLOW)"
    and "sig_value (sigs VOLATILITY) = 0" and "\<not> triggered (sigs VOLATILITY)"
    and "sig_value (sigs FORCED_SELLING) = 0" and "\<not> triggered (sigs FORCED_SELLING)"
  shows "\<exists>st tr e'. calculateStressWithTrace e sigs tick env = Inr ((st, tr), e') \<and>
           raw_score tr = 28 \<and> stress_raw_score st = 28 \<and>
           signals_aligned tr = 1 \<and> stress_signals_aligned st = 1 \<and>
           shock_multiplier tr = 1.08 \<and>
           pre_smooth_score tr = 30.24 \<and>
           smoothing_alpha tr = 0.35 \<and>
           previousStress e' = 10.584 \<and>
           final_score tr = 11 \<and> score st = 11 \<and>
           level st = STABLE"
  using assms
  by (simp add: calculateStressWithTrace_value Let_def signal_keys_def Math_round_def
        classifyLevel_def)

theorem scenario_B_witness:
  "\<exists>st tr e'. calculateStressWithTrace new_AnalyticsEngine scenario_B_signals quiet_tick quiet_env
                  = Inr ((st, tr), e') \<and>
           raw_score tr = 28 \<and> previousStress e' = 10.584 \<and> score st = 11 \<and> level st = STABLE"
proof -
  have "\<exists>st tr e'. calculateStressWithTrace new_AnalyticsEngine scenario_B_signals quiet_tick quiet_env
                  = Inr ((st, tr), e') \<and>
           raw_score tr = 28 \<and> stress_raw_score st = 28 \<and>
           signals_aligned tr = 1 \<and> stress_signals_aligned st = 1 \<and>
           shock_multiplier tr = 1.08 \<and>
           pre_smooth_score tr = 30.24 \<and>
           smoothing_alpha tr = 0.35 \<and>
           previousStress e' = 10.584 \<and>
           final_score tr = 11 \<and> score st = 11 \<and>
           level st = STABLE"
    by (rule scenario_B) (simp_all add: new_AnalyticsEngine_def scenario_B_signals_def)
  then show ?thesis by blast
qed

text \<open>
  Claim C2. On every tick a critical event is emitted exactly when the rank of the new
  level exceeds the rank of the stored previous level and is at least 2 (STRESSED), or
  the count of aligned signals exceeds the stored previous count and the score exceeds 60;
  the stored level and count become those of the tick whether or not an event is emitted.
  This is stated for \<open>processTick\<close> and for the detector alone. In particular, from any
  engine state, a STABLE tick of score 10 emits nothing, a following STRESSED tick of
  score 65 with 2 aligned signals emits one event, and a following STRESSED tick of score
  66 with the same 2 aligned signals emits nothing.
\<close>

theorem critical_event_rule:
  "(\<exists>out e'. processTick e tick env = Inr (out, e') \<and>
      (criticalEvent out \<noteq> None) =
        ((getStressRank (level (stress out)) > getStressRank (previousLevel e) \<and>
          getStressRank (level (stress out)) \<ge> 2) \<or>
         (stress_signals_aligned (stress out) > previousSignalsAligned e \<and>
          score (stress out) > 60)) \<and>
      previousLevel e' = level (stress out) \<and>
      previousSignalsAligned e' = stress_signals_aligned (stress out)) \<and>
   (fst (detectCriticalEvent e tick st cs env) \<noteq> None) =
     ((getStressRank (level st) > getStressRank (previousLevel e) \<and>
       getStressRank (level st) \<ge> 2) \<or>
      (stress_signals_aligned st > previousSignalsAligned e \<and> score st > 60)) \<and>
   previousLevel (snd (detectCriticalEvent e tick st cs env)) = level st \<and>
   previousSignalsAligned (snd (detectCriticalEvent e tick st cs env))
     = stress_signals_aligned st \<and>
   (level st1 = STABLE \<and> score st1 = 10 \<and>
    level st2 = STRESSED \<and> score st2 = 65 \<and> stress_signals_aligned st2 = 2 \<and>
    level st3 = STRESSED \<and> score st3 = 66 \<and> stress_signals_aligned st3 = 2 \<longrightarrow>
    fst (detectCriticalEvent e t1 st1 c1 v1) = None \<and>
    (\<exists>ev. fst (detectCriticalEvent (snd (detectCriticalEvent e t1 st1 c1 v1)) t2 st2 c2 v2)
            = Some ev \<and> stress_score ev = 65 \<and> event_level ev = STRESSED) \<and>
    fst (detectCriticalEvent
           (snd (detectCriticalEvent (snd (detectCriticalEvent e t1 st1 c1 v1)) t2 st2 c2 v2))
           t3 st3 c3 v3) = None)"
proof -
  obtain out e3 order where
    p: "processTick e tick env =
       Inr (out, e3\<lparr>triggerOrder := order,
                    previousLevel := level (stress out),
                    previousSignalsAligned := stress_signals_aligned (stress out)\<rparr>)" and
    c: "calculateStressWithTrace
       (e\<lparr>liquidityBuffer := push (total_depth tick) (liquidityBuffer e),
          priceBuffer := push (price tick) (priceBuffer e)\<rparr>) (signals out) tick env
       = Inr ((stress out, trace out), e3)" and
    d: "criticalEvent out =
       fst (detectCriticalEvent (e3\<lparr>triggerOrder := order\<rparr>) tick (stress out) (causal out) env)"
    using processTick_run [of e tick env] by blast
  from c have prev: "previousLevel (e3\<lparr>triggerOrder := order\<rparr>) = previousLevel e"
    "previousSignalsAligned (e3\<lparr>triggerOrder := order\<rparr>) = previousSignalsAligned e"
    by (auto simp: calculateStressWithTrace_value Let_def)
  have fires: "(criticalEvent out \<noteq> None) =
        ((getStressRank (level (stress out)) > getStressRank (previousLevel e) \<and>
          getStressRank (level (stress out)) \<ge> 2) \<or>
         (stress_signals_aligned (stress out) > previousSignalsAligned e \<and>
          score (stress out) > 60))"
    unfolding d detectCriticalEvent_fires prev ..
  have tick_part: "\<exists>out e'. processTick e tick env = Inr (out, e') \<and>
      (criticalEvent out \<noteq> None) =
        ((getStressRank (level (stress out)) > getStressRank (previousLevel e) \<and>
          getStressRank (level (stress out)) \<ge> 2) \<or>
         (stress_signals_aligned (stress out) > previousSignalsAligned e \<and>
          score (stress out) > 60)) \<and>
      previousLevel e' = level (stress out) \<and>
      previousSignalsAligned e' = stress_signals_aligned (stress out)"
    apply (rule exI [of _ out])
    apply (rule exI [of _ "e3\<lparr>triggerOrder := order,
                    previousLevel := level (stress out),
                    previousSignalsAligned := stress_signals_aligned (stress out)\<rparr>"])
    using p fires by simp
  have scenario: "level st1 = STABLE \<and> score st1 = 10 \<and>
    level st2 = STRESSED \<and> score st2 = 65 \<and> stress_signals_aligned st2 = 2 \<and>
    level st3 = STRESSED \<and> score st3 = 66 \<and> stress_signals_aligned st3 = 2 \<longrightarrow>
    fst (detectCriticalEvent e t1 st1 c1 v1) = None \<and>
    (\<exists>ev. fst (detectCriticalEvent (snd (detectCriticalEvent e t1 st1 c1 v1)) t2 st2 c2 v2)
            = Some ev \<and> stress_score ev = 65 \<and> event_level ev = STRESSED) \<and>
    fst (detectCriticalEvent
           (snd (detectCriticalEvent (snd (detectCriticalEvent e t1 st1 c1 v1)) t2 st2 c2 v2))
           t3 st3 c3 v3) = None"
    by (simp add: detectCriticalEvent_state) (simp add: detectCriticalEvent_def Let_def)
  have lvl: "previousLevel (snd (detectCriticalEvent e tick st cs env)) = level st"
    by (simp add: detectCriticalEvent_state)
  have cnt: "previousSignalsAligned (snd (detectCriticalEvent e tick st cs env))
             = stress_signals_aligned st"
    by (simp add: detectCriticalEvent_state)
  show ?thesis
    apply (intro conjI)
        apply (rule tick_part)
       apply (rule detectCriticalEvent_fires)
      apply (rule lvl)
     apply (rule cnt)
    apply (rule scenario)
    done
qed

theorem critical_event_rule_witness:
  "fst (detectCriticalEvent new_AnalyticsEngine quiet_tick (stress_at STABLE 10 0)
          inactive_chain quiet_env) = None \<and>
   (\<exists>ev. fst (detectCriticalEvent
                (snd (detectCriticalEvent new_AnalyticsEngine quiet_tick (stress_at STABLE 10 0)
                        inactive_chain quiet_env))
                quiet_tick (stress_at STRESSED 65 2) inactive_chain quiet_env) = Some ev \<and>
         stress_score ev = 65 \<and> event_level ev = STRESSED) \<and>
   fst (detectCriticalEvent
          (snd (detectCriticalEvent
                  (snd (detectCriticalEvent new_AnalyticsEngine quiet_tick
                          (stress_at STABLE 10 0) inactive_chain quiet_env))
                  quiet_tick (stress_at STRESSED 65 2) inactive_chain quiet_env))
          quiet_tick (stress_at STRESSED 66 2) inactive_chain quiet_env) = None"
  using critical_event_rule
    [where e = new_AnalyticsEngine and ?st1.0 = "stress_at STABLE 10 0"
       and ?st2.0 = "stress_at STRESSED 65 2" and ?st3.0 = "stress_at STRESSED 66 2"
       and ?t1.0 = quiet_tick and ?t2.0 = quiet_tick and ?t3.0 = quiet_tick
       and ?c1.0 = inactive_chain and ?c2.0 = inactive_chain and ?c3.0 = inactive_chain
       and ?v1.0 = quiet_env and ?v2.0 = quiet_env and ?v3.0 = quiet_env]
  by (simp add: stress_at_def)

text \<open>
  Claim C3, as it holds on the code. The window \<open>w\<close> is what the price buffer holds once
  the price of the tick is pushed (for an engine whose buffer received the prices \<open>ps\<close>,
  the last 300 of \<open>ps\<close> and the new price). With fewer than 20 samples the evaluator
  returns the default signal: value 0, not triggered, LOW confidence. Otherwise, for prices
  of magnitude at most \<open>10 ^ 150\<close> (so that no intermediate value overflows), its risk is
  \<open>clamp((short / long - 1) * 50, 0, 100)\<close> evaluated in the arithmetic \<open>ar\<close> of the
  engine, where \<open>short\<close> is the population standard deviation of the last 10 prices and
  \<open>long\<close> that of the whole window, both as \<open>ar\<close> computes them, and \<open>long\<close> is
  replaced by 1 only when the computed value is exactly 0: a deviation that is a rounding
  error above 0 is divided by as it is. The value is the rounded risk and the signal is
  triggered exactly when the risk exceeds 55. This holds for every arithmetic \<open>ar\<close>; in
  exact arithmetic the evaluator is the one that \<open>processTick\<close> calls.
\<close>

theorem volatility_regime:
  assumes "w = getAll (push (price tick) (priceBuffer e))"
  shows "(priceBuffer e = pushAll ps (new_CircularBuffer 300) \<longrightarrow>
            w = drop (Suc (length ps) - 300) (ps @ [price tick])) \<and>
         (length w < 20 \<longrightarrow>
            (\<exists>sg. processVolatility_in ar e tick =
                     Inr (sg, e\<lparr>priceBuffer := push (price tick) (priceBuffer e)\<rparr>) \<and>
                  sg = defaultSignal VOLATILITY (processing_timestamp tick) \<and>
                  sig_value sg = 0 \<and> \<not> triggered sg \<and> confidence sg = LOW)) \<and>
         (20 \<le> length w \<and> (\<forall>p\<in>set w. \<bar>p\<bar> \<le> 10 ^ 150) \<longrightarrow>
            (\<exists>sg. processVolatility_in ar e tick =
                     Inr (sg, e\<lparr>priceBuffer := push (price tick) (priceBuffer e)\<rparr>) \<and>
                  sig_value sg = Math_round (volatility_risk_in ar w) \<and>
                  severity sg = getSeverity (volatility_risk_in ar w) \<and>
                  triggered sg = (volatility_risk_in ar w > 55))) \<and>
         processVolatility_in exact_arith e tick = processVolatility e tick"
proof (intro conjI impI)
  assume "priceBuffer e = pushAll ps (new_CircularBuffer 300)"
  with assms show "w = drop (Suc (length ps) - 300) (ps @ [price tick])"
    by (simp add: getAll_push_pushAll)
next
  assume "length w < 20"
  with assms show "\<exists>sg. processVolatility_in ar e tick =
                     Inr (sg, e\<lparr>priceBuffer := push (price tick) (priceBuffer e)\<rparr>) \<and>
                  sg = defaultSignal VOLATILITY (processing_timestamp tick) \<and>
                  sig_value sg = 0 \<and> \<not> triggered sg \<and> confidence sg = LOW"
    by (simp add: processVolatility_in_value Let_def defaultSignal_def)
next
  assume "20 \<le> length w \<and> (\<forall>p\<in>set w. \<bar>p\<bar> \<le> 10 ^ 150)"
  then have "\<not> length w < 20" by simp
  with assms show "\<exists>sg. processVolatility_in ar e tick =
                     Inr (sg, e\<lparr>priceBuffer := push (price tick) (priceBuffer e)\<rparr>) \<and>
                  sig_value sg = Math_round (volatility_risk_in ar w) \<and>
                  severity sg = getSeverity (volatility_risk_in ar w) \<and>
                  triggered sg = (volatility_risk_in ar w > 55)"
    by (simp add: processVolatility_in_value Let_def volatility_risk_in_def slice_last_def)
next
  show "processVolatility_in exact_arith e tick = processVolatility e tick"
    by (simp add: processVolatility_in_exact)
qed

theorem volatility_regime_witness:
  "(\<exists>sg e'. processVolatility_in exact_arith spike_engine spike_tick = Inr (sg, e') \<and>
      sig_value sg = 100 \<and> triggered sg) \<and>
   (\<exists>sg e'. processVolatility_in exact_arith new_AnalyticsEngine quiet_tick = Inr (sg, e') \<and>
      sig_value sg = 0 \<and> \<not> triggered sg \<and> confidence sg = LOW)"
proof -
  let ?w = "replicate 150 100 @ [99, 101, 99, 101, 99, 101, 99, 101, 99, 101 :: real]"
  have w: "?w = getAll (push (price spike_tick) (priceBuffer spike_engine))"
    by (simp add: spike_window)
  have b: "\<forall>p\<in>set ?w. \<bar>p\<bar> \<le> 10 ^ 150"
    by auto
  have l: "20 \<le> length ?w" by simp
  have s1: "population_std_in exact_arith ?w = 1 / 4"
    by (simp add: population_std_in_exact spike_std_long)
  have s2: "population_std_in exact_arith [99, 101, 99, 101, 99, 101, 99, 101, 99, 101] = 1"
    by (simp add: population_std_in_exact spike_std_short)
  have ops: "times_d exact_arith a c = a * c" "minus_d exact_arith a c = a - c"
    "over_d exact_arith a c = a / c" for a c
    by (simp_all add: exact_arith_def)
  have r: "volatility_risk_in exact_arith ?w = 100"
    by (simp add: volatility_risk_in_def Let_def s1 s2 ops)
  have w': "[100] = getAll (push (price quiet_tick) (priceBuffer new_AnalyticsEngine))"
    by (simp add: new_AnalyticsEngine_def new_CircularBuffer_def quiet_tick_def push_def
          getAll_def)
  from volatility_regime [OF w, of spike_prices exact_arith, THEN conjunct2, THEN conjunct2,
         THEN conjunct1, THEN mp, OF conjI [OF l b]] r
  have 1: "\<exists>sg e'. processVolatility_in exact_arith spike_engine spike_tick = Inr (sg, e') \<and>
      sig_value sg = 100 \<and> triggered sg"
    by (auto simp: Math_round_def)
  from volatility_regime [OF w', of "[]" exact_arith, THEN conjunct2, THEN conjunct1]
  have 2: "\<exists>sg e'. processVolatility_in exact_arith new_AnalyticsEngine quiet_tick = Inr (sg, e') \<and>
      sig_value sg = 0 \<and> \<not> triggered sg \<and> confidence sg = LOW"
    by auto
  from 1 2 show ?thesis by blast
qed

text \<open>
  Claim C3 as the specification words it, with the long deviation floored to 1
  (\<open>max(stddev, 1)\<close>), fails: 150 prices of 100 followed by ten prices alternating
  between 99 and 101 have a long deviation of 1/4 and a short deviation of 1. The code
  divides by 1/4, reaches a risk of 100 and triggers; the specified formula divides by 1
  and gives a risk of 0.
\<close>

theorem volatility_floor_counterexample:
  "(\<exists>sg e'. processVolatility spike_engine spike_tick = Inr (sg, e') \<and>
      sig_value sg = 100 \<and> triggered sg) \<and>
   volatility_risk_specified (getAll (push (price spike_tick) (priceBuffer spike_engine))) = 0"
  by (simp add: processVolatility_value Let_def spike_window slice_last_def
        spike_std_long spike_std_short volatility_risk_specified_def Math_round_def)

text \<open>
  Claim C4, as it holds on the code. Two runs of the aggregation step on the same signals
  and the same previous score give scores equal in every field but the timestamp and
  traces equal in every field but the timestamp and the confidence rationale. The
  rationale quotes the sample counts of the liquidity and price windows and the
  timestamps are clock readings: when the two counts and the two readings agree as well,
  the scores and the traces are equal.
\<close>

theorem aggregation_inputs:
  assumes "previousStress e1 = previousStress e2"
  shows "\<exists>st1 tr1 e1' st2 tr2 e2'.
     calculateStressWithTrace e1 sigs tick1 env1 = Inr ((st1, tr1), e1') \<and>
     calculateStressWithTrace e2 sigs tick2 env2 = Inr ((st2, tr2), e2') \<and>
     st1\<lparr>stress_timestamp := now_stress env2\<rparr> = st2 \<and>
     tr1\<lparr>confidence_reasons := confidence_reasons tr2, trace_timestamp := now_trace env2\<rparr>
       = tr2 \<and>
     previousStress e1' = previousStress e2' \<and>
     stress_timestamp st1 = now_stress env1 \<and>
     trace_timestamp tr1 = now_trace env1 \<and>
     confidence_reasons tr1 =
       [(LIQUIDITY, Depth_samples (size_buf (liquidityBuffer e1))),
        (VOLATILITY, Price_ticks (size_buf (priceBuffer e1))),
        (FLOW, Volume_density),
        (FORCED_SELLING, Trade_frequency)] \<and>
     (size_buf (liquidityBuffer e1) = size_buf (liquidityBuffer e2) \<and>
      size_buf (priceBuffer e1) = size_buf (priceBuffer e2) \<and>
      now_stress env1 = now_stress env2 \<and> now_trace env1 = now_trace env2 \<longrightarrow>
      st1 = st2 \<and> tr1 = tr2)"
  unfolding calculateStressWithTrace_value Let_def
  apply (intro exI conjI)
           apply (rule refl)
          apply (rule refl)
         apply (simp_all only: assms StressScore.simps DecisionTrace.simps AnalyticsEngine.simps
             simp_thms)
   apply (simp add: assms)
  apply (intro impI)
  apply (elim conjE)
  apply (simp only: simp_thms)
  done

theorem aggregation_inputs_witness:
  "\<exists>st1 tr1 e1' st2 tr2 e2'.
     calculateStressWithTrace new_AnalyticsEngine scenario_B_signals quiet_tick quiet_env
       = Inr ((st1, tr1), e1') \<and>
     calculateStressWithTrace (reset new_AnalyticsEngine) scenario_B_signals quiet_tick quiet_env
       = Inr ((st2, tr2), e2') \<and>
     st1 = st2 \<and> tr1 = tr2"
proof -
  have p: "previousStress new_AnalyticsEngine = previousStress (reset new_AnalyticsEngine)"
    by (simp add: new_AnalyticsEngine_def reset_def)
  have s: "size_buf (liquidityBuffer new_AnalyticsEngine)
             = size_buf (liquidityBuffer (reset new_AnalyticsEngine))"
          "size_buf (priceBuffer new_AnalyticsEngine)
             = size_buf (priceBuffer (reset new_AnalyticsEngine))"
    by (simp_all add: new_AnalyticsEngine_def reset_def size_buf_def clear_def
          new_CircularBuffer_def)
  from aggregation_inputs [OF p, of scenario_B_signals quiet_tick quiet_env quiet_tick quiet_env] s
  show ?thesis by blast
qed

text \<open>
  Claim C4 as the specification words it fails: a new engine that processes the same quiet
  tick twice, with the same clock readings, aggregates the same four signals with the same
  previous score 0 both times, and the two traces differ (the first rationale quotes 1
  sample, the second 2).
\<close>

theorem aggregation_purity_counterexample:
  "\<exists>out1 e1 out2 e2.
     processTick new_AnalyticsEngine quiet_tick quiet_env = Inr (out1, e1) \<and>
     processTick e1 quiet_tick quiet_env = Inr (out2, e2) \<and>
     signals out1 = signals out2 \<and>
     previous_score (trace out1) = previous_score (trace out2) \<and>
     trace out1 \<noteq> trace out2"
proof -
  obtain out1 e1 where p1: "processTick new_AnalyticsEngine quiet_tick quiet_env = Inr (out1, e1)"
    using processTick_total by blast
  obtain out2 e2 where p2: "processTick e1 quiet_tick quiet_env = Inr (out2, e2)"
    using processTick_total by blast
  have l0: "buffer (liquidityBuffer new_AnalyticsEngine) = replicate 0 5"
    "head (liquidityBuffer new_AnalyticsEngine) = 0"
    "0 < maxSize (liquidityBuffer new_AnalyticsEngine)" "(0::nat) < 19"
    and v0: "length (buffer (priceBuffer new_AnalyticsEngine)) < 19"
    "length (buffer (priceBuffer new_AnalyticsEngine)) < maxSize (priceBuffer new_AnalyticsEngine)"
    and s0: "previousStress new_AnalyticsEngine = 0"
    by (simp_all add: new_AnalyticsEngine_def new_CircularBuffer_def)
  note sg1 = quiet_tick_signals [OF p1 l0 v0]
  note st1 = quiet_tick_step [OF p1 l0 v0 s0]
  have l1: "buffer (liquidityBuffer e1) = replicate (Suc 0) 5" "head (liquidityBuffer e1) = 0"
    "Suc 0 < maxSize (liquidityBuffer e1)" "Suc 0 < 19"
    and v1: "length (buffer (priceBuffer e1)) < 19"
    "length (buffer (priceBuffer e1)) < maxSize (priceBuffer e1)"
    using sg1(5,6,7,8,9) by (simp_all add: new_AnalyticsEngine_def new_CircularBuffer_def)
  note sg2 = quiet_tick_signals [OF p2 l1 v1]
  note st2 = quiet_tick_step [OF p2 l1 v1 st1(1)]
  have same: "signals out1 = signals out2"
  proof
    fix k show "signals out1 k = signals out2 k"
      by (cases k) (simp_all add: sg1(1,2,3,4) sg2(1,2,3,4))
  qed
  have prev: "previous_score (trace out1) = previous_score (trace out2)"
    using processTick_effect(1) [OF p1] processTick_effect(1) [OF p2] s0 st1(1) by simp
  have "confidence_reasons (trace out1) \<noteq> confidence_reasons (trace out2)"
    unfolding st1(2) st2(2) by simp
  then have "trace out1 \<noteq> trace out2" by auto
  with p1 p2 same prev show ?thesis by blast
qed

text \<open>
  Claim C5, as it holds on the code. A window of capacity \<open>n \<ge> 1\<close> that has received
  the items \<open>xs\<close>, oldest first, never holds more than \<open>n\<close> items, holds exactly
  \<open>n\<close> once \<open>n\<close> or more have been pushed, and \<open>getAll\<close> returns the last \<open>n\<close>
  of them in the order they were pushed: after \<open>n + k\<close> pushes the \<open>k\<close> oldest are gone.
\<close>

theorem rolling_window_fifo:
  assumes "0 < n"
  shows "size_buf (pushAll xs (new_CircularBuffer n)) \<le> n \<and>
         (n \<le> length xs \<longrightarrow> size_buf (pushAll xs (new_CircularBuffer n)) = n) \<and>
         (length xs = n + k \<longrightarrow> getAll (pushAll xs (new_CircularBuffer n)) = drop k xs) \<and>
         getAll (pushAll xs (new_CircularBuffer n)) = drop (length xs - n) xs"
proof -
  let ?b = "pushAll xs (new_CircularBuffer n)"
  have ok: "buffer_ok ?b" using assms by (simp add: pushAll_ok buffer_ok_new)
  have len: "size_buf ?b = min (length xs) n"
    using pushAll_new [OF assms, of xs] by (simp add: size_buf_def)
  have all: "getAll ?b = drop (length xs - n) xs"
    using pushAll_new [OF assms, of xs] getAll_chronological [OF ok] by simp
  from len all show ?thesis by auto
qed

theorem rolling_window_fifo_witness:
  "(0::nat) < 2 \<and>
   size_buf (pushAll [10, 20, 30 :: real] (new_CircularBuffer 2)) = 2 \<and>
   getAll (pushAll [10, 20, 30 :: real] (new_CircularBuffer 2)) = [20, 30]"
  using rolling_window_fifo [of 2 "[10, 20, 30 :: real]" 1] by simp

text \<open>
  Claim C5 as the specification words it, for every capacity, fails at capacity 0: the
  first push finds \<open>0 < 0\<close> false, stores the item at slot 0 of the empty array, and the
  array then holds one item.
\<close>

theorem zero_capacity_window_counterexample:
  "\<not> size_buf (pushAll [10 :: real] (new_CircularBuffer 0)) \<le> 0"
  by (simp add: size_buf_def pushAll_def push_def new_CircularBuffer_def array_store_def)

text \<open>
  Claim C6. A tick on which no signal is triggered returns the inactive chain (not active,
  no steps, no catalyst) and leaves the trigger history empty; this holds of
  \<open>buildCausalSequence\<close> in any state and of \<open>processTick\<close>. On the ticks processed
  afterwards every triggered signal has a step in the chain, and the timestamp of every
  step and of every entry of the history is a clock reading taken for that signal on one
  of those later ticks: nothing recorded before the clearing is used again.
\<close>

theorem causal_chain_clearing:
  "((\<forall>k. \<not> triggered (sigs k)) \<longrightarrow>
      buildCausalSequence e0 st sigs env0 = (inactive_chain, e0\<lparr>triggerOrder := []\<rparr>)) \<and>
   (processTick e tick env = Inr (out, e1) \<and> (\<forall>k. \<not> triggered (signals out k)) \<and>
    processTicks e1 later = Inr (outs, e2) \<longrightarrow>
      causal out = inactive_chain \<and> triggerOrder e1 = [] \<and>
      (\<forall>u\<in>set outs. \<forall>k. triggered (signals u k) \<longrightarrow>
         (\<exists>s\<in>set (steps (causal u)). step_signal s = k \<and>
            (\<exists>(t, env')\<in>set later. step_timestamp s = now_trigger env' k))) \<and>
      (\<forall>u\<in>set outs. \<forall>s\<in>set (steps (causal u)).
         \<exists>(t, env')\<in>set later. step_timestamp s = now_trigger env' (step_signal s)) \<and>
      (\<forall>en\<in>set (triggerOrder e2).
         \<exists>(t, env')\<in>set later. trigger_timestamp en = now_trigger env' (trigger_signal en)))"
proof (intro conjI impI)
  assume "\<forall>k. \<not> triggered (sigs k)"
  then show "buildCausalSequence e0 st sigs env0 = (inactive_chain, e0\<lparr>triggerOrder := []\<rparr>)"
    by (rule buildCausalSequence_clear)
next
  assume a: "processTick e tick env = Inr (out, e1) \<and> (\<forall>k. \<not> triggered (signals out k)) \<and>
    processTicks e1 later = Inr (outs, e2)"
  then have p: "processTick e tick env = Inr (out, e1)"
    and q: "\<forall>k. \<not> triggered (signals out k)"
    and r: "processTicks e1 later = Inr (outs, e2)" by simp_all
  from processTick_causal(4) [OF p q]
  show c: "causal out = inactive_chain" and t: "triggerOrder e1 = []" by simp_all
  have "\<forall>en\<in>set (triggerOrder e1).
           \<exists>env\<in>snd ` set later. trigger_timestamp en = now_trigger env (trigger_signal en)"
    using t by simp
  from processTicks_fresh [OF r subset_refl this]
  have f1: "\<forall>en\<in>set (triggerOrder e2).
            \<exists>env\<in>snd ` set later. trigger_timestamp en = now_trigger env (trigger_signal en)"
    and f2: "\<forall>u\<in>set outs. \<forall>s\<in>set (steps (causal u)).
            \<exists>env\<in>snd ` set later. step_timestamp s = now_trigger env (step_signal s)"
    and f3: "\<forall>u\<in>set outs. \<forall>k. triggered (signals u k) \<longrightarrow>
            k \<in> step_signal ` set (steps (causal u))"
    by simp_all
  show "\<forall>en\<in>set (triggerOrder e2).
         \<exists>(t, env')\<in>set later. trigger_timestamp en = now_trigger env' (trigger_signal en)"
    using f1 by fastforce
  show s: "\<forall>u\<in>set outs. \<forall>s\<in>set (steps (causal u)).
         \<exists>(t, env')\<in>set later. step_timestamp s = now_trigger env' (step_signal s)"
    using f2 by fastforce
  show "\<forall>u\<in>set outs. \<forall>k. triggered (signals u k) \<longrightarrow>
         (\<exists>s\<in>set (steps (causal u)). step_signal s = k \<and>
            (\<exists>(t, env')\<in>set later. step_timestamp s = now_trigger env' k))"
  proof (intro ballI allI impI)
    fix u k assume o: "u \<in> set outs" and k: "triggered (signals u k)"
    with f3 obtain x where x: "x \<in> set (steps (causal u))" "step_signal x = k" by auto
    with s o have "\<exists>(t, env')\<in>set later. step_timestamp x = now_trigger env' k" by auto
    with x show "\<exists>s\<in>set (steps (causal u)). step_signal s = k \<and>
            (\<exists>(t, env')\<in>set later. step_timestamp s = now_trigger env' k)" by blast
  qed
qed

theorem causal_chain_clearing_witness:
  "\<exists>out e1 outs e2.
     processTick new_AnalyticsEngine quiet_tick quiet_env = Inr (out, e1) \<and>
     processTicks e1 [(block_sale_tick 3, later_env)] = Inr (outs, e2) \<and>
     causal out = inactive_chain \<and> triggerOrder e1 = [] \<and>
     (\<exists>u\<in>set outs. \<exists>s\<in>set (steps (causal u)).
        step_signal s = FORCED_SELLING \<and> step_timestamp s = 7)"
proof -
  obtain out e1 where p: "processTick new_AnalyticsEngine quiet_tick quiet_env = Inr (out, e1)"
    using processTick_total by blast
  obtain u e2 where p2: "processTick e1 (block_sale_tick 3) later_env = Inr (u, e2)"
    using processTick_total by blast
  then have r: "processTicks e1 [(block_sale_tick 3, later_env)] = Inr ([u], e2)" by simp
  have l0: "buffer (liquidityBuffer new_AnalyticsEngine) = replicate 0 5"
    "head (liquidityBuffer new_AnalyticsEngine) = 0"
    "0 < maxSize (liquidityBuffer new_AnalyticsEngine)" "(0::nat) < 19"
    and v0: "length (buffer (priceBuffer new_AnalyticsEngine)) < 19"
    "length (buffer (priceBuffer new_AnalyticsEngine)) < maxSize (priceBuffer new_AnalyticsEngine)"
    by (simp_all add: new_AnalyticsEngine_def new_CircularBuffer_def)
  note sg = quiet_tick_signals [OF p l0 v0]
  have q: "\<forall>k. \<not> triggered (signals out k)"
  proof
    fix k show "\<not> triggered (signals out k)"
      by (cases k)
         (simp_all add: sg(1,2,3,4) processForcedSelling_def quiet_tick_def Let_def)
  qed
  have z: "triggered (signals u FORCED_SELLING)"
    unfolding processTick_effect(11) [OF p2]
    by (simp add: processForcedSelling_def block_sale_tick_def large_sell_def Let_def)
  have hyp: "processTick new_AnalyticsEngine quiet_tick quiet_env = Inr (out, e1) \<and>
             (\<forall>k. \<not> triggered (signals out k)) \<and>
             processTicks e1 [(block_sale_tick 3, later_env)] = Inr ([u], e2)"
    using p q r by blast
  note cc = causal_chain_clearing
         [where e = new_AnalyticsEngine and tick = quiet_tick and env = quiet_env
            and out = out and ?e1.0 = e1 and later = "[(block_sale_tick 3, later_env)]"
            and outs = "[u]" and ?e2.0 = e2, THEN conjunct2, THEN mp, OF hyp]
  from cc z
  have "causal out = inactive_chain \<and> triggerOrder e1 = [] \<and>
        (\<exists>s\<in>set (steps (causal u)). step_signal s = FORCED_SELLING \<and>
           step_timestamp s = 7)"
    by (auto simp: later_env_def)
  then have "processTick new_AnalyticsEngine quiet_tick quiet_env = Inr (out, e1) \<and>
     processTicks e1 [(block_sale_tick 3, later_env)] = Inr ([u], e2) \<and>
     causal out = inactive_chain \<and> triggerOrder e1 = [] \<and>
     (\<exists>u\<in>set [u]. \<exists>s\<in>set (steps (causal u)).
        step_signal s = FORCED_SELLING \<and> step_timestamp s = 7)"
    using p r by simp
  then show ?thesis by blast
qed

text \<open>
  Claim C7. \<open>processTick\<close> returns a result for every engine state and every tick: no
  \<open>TypeError\<close> and no division by a zero denominator is reached. A tick whose buy and
  sell volumes sum to 0 gets the default flow signal (value 0, LOW confidence, not
  triggered); a liquidity window whose mean is 0 gives a liquidity value of 0, not
  triggered; a price window of fewer than 20 samples gives the default volatility signal.
  The remainders taken by the two windows are by their capacity, which a tick leaves as
  it is (300 in every engine the constructor makes), and by their length inside a loop
  over that length.
\<close>

theorem degenerate_inputs_fall_back:
  "\<exists>out e'. processTick e tick env = Inr (out, e') \<and>
     (buy_volume (trades tick) + sell_volume (trades tick) = 0 \<longrightarrow>
        sig_value (signals out FLOW) = 0 \<and> confidence (signals out FLOW) = LOW \<and>
        \<not> triggered (signals out FLOW) \<and>
        signals out FLOW = defaultSignal FLOW (processing_timestamp tick)) \<and>
     (mean (push (total_depth tick) (liquidityBuffer e)) = Inr 0 \<longrightarrow>
        sig_value (signals out LIQUIDITY) = 0 \<and> \<not> triggered (signals out LIQUIDITY)) \<and>
     (size_buf (push (price tick) (priceBuffer e)) < 20 \<longrightarrow>
        sig_value (signals out VOLATILITY) = 0 \<and> confidence (signals out VOLATILITY) = LOW \<and>
        \<not> triggered (signals out VOLATILITY) \<and>
        signals out VOLATILITY = defaultSignal VOLATILITY (processing_timestamp tick)) \<and>
     maxSize (liquidityBuffer e') = maxSize (liquidityBuffer e) \<and>
     maxSize (priceBuffer e') = maxSize (priceBuffer e)"
proof -
  obtain l e1 f v e2 st tr e3 cs e4 ev e5 where
    l: "processLiquidity e tick = Inr (l, e1)" and
    f: "processFlow tick = Inr f" and
    v: "processVolatility e1 tick = Inr (v, e2)" and
    p: "processTick e tick env =
       Inr (\<lparr>signals = signals_of l f v (processForcedSelling tick), stress = st, causal = cs,
             criticalEvent = ev, trace = tr\<rparr>, e5)"
    using processTick_stages [of e tick env] by blast
  have e1: "priceBuffer e1 = priceBuffer e"
    using l by (auto simp: processLiquidity_value Let_def)
  have flow: "buy_volume (trades tick) + sell_volume (trades tick) = 0 \<Longrightarrow>
              f = defaultSignal FLOW (processing_timestamp tick)"
    using f by (simp add: processFlow_value)
  have liq: "mean (push (total_depth tick) (liquidityBuffer e)) = Inr 0 \<Longrightarrow>
             sig_value l = 0 \<and> \<not> triggered l"
    using l by (auto simp: processLiquidity_value mean_value Let_def split: if_splits)
  have vol: "size_buf (push (price tick) (priceBuffer e)) < 20 \<Longrightarrow>
             v = defaultSignal VOLATILITY (processing_timestamp tick)"
    using v e1 by (simp add: processVolatility_value Let_def size_buf_def getAll_def)
  have cap: "maxSize (liquidityBuffer e5) = maxSize (liquidityBuffer e)"
    "maxSize (priceBuffer e5) = maxSize (priceBuffer e)"
    using processTick_effect(4,5) [OF p] by simp_all
  from p flow liq vol cap show ?thesis
    by (auto simp: defaultSignal_def)
qed

theorem degenerate_inputs_fall_back_witness:
  "\<exists>out e'. processTick new_AnalyticsEngine (quiet_tick\<lparr>total_depth := 0\<rparr>) quiet_env
               = Inr (out, e') \<and>
     signals out FLOW = defaultSignal FLOW 0 \<and>
     sig_value (signals out LIQUIDITY) = 0 \<and> \<not> triggered (signals out LIQUIDITY) \<and>
     signals out VOLATILITY = defaultSignal VOLATILITY 0"
proof -
  have f: "buy_volume (trades (quiet_tick\<lparr>total_depth := 0\<rparr>))
           + sell_volume (trades (quiet_tick\<lparr>total_depth := 0\<rparr>)) = 0"
    by (simp add: quiet_tick_def)
  have l: "mean (push (total_depth (quiet_tick\<lparr>total_depth := 0\<rparr>))
                  (liquidityBuffer new_AnalyticsEngine)) = Inr 0"
    by (simp add: mean_value new_AnalyticsEngine_def new_CircularBuffer_def push_def)
  have v: "size_buf (push (price (quiet_tick\<lparr>total_depth := 0\<rparr>))
                      (priceBuffer new_AnalyticsEngine)) < 20"
    by (simp add: size_buf_def new_AnalyticsEngine_def new_CircularBuffer_def push_def)
  have t: "processing_timestamp (quiet_tick\<lparr>total_depth := 0\<rparr>) = 0"
    by (simp add: quiet_tick_def)
  from degenerate_inputs_fall_back
         [of new_AnalyticsEngine "quiet_tick\<lparr>total_depth := 0\<rparr>" quiet_env] f l v t
  show ?thesis by auto
qed

text \<open>
  Claim C8, as it holds on the code. For a new or reset engine and every sequence of ticks
  whose large sell trades have non-negative quantities, whose depths are at most
  \<open>10 ^ 300\<close> and whose prices are at most \<open>10 ^ 150\<close> in magnitude (so that no sum over a
  window overflows), every tick is processed, every emitted score lies between 0 and 100,
  and the stored previous score stays between 0 and 100. The stored value is the unrounded
  smoothed score of the most recent tick, the emitted score is its rounding, and the
  previous score recorded in each trace is the smoothed score of the tick before.
\<close>

theorem score_range_invariant:
  assumes "e0 = new_AnalyticsEngine \<or> e0 = reset e"
    and "\<forall>(tick, env)\<in>set ticks.
           \<bar>total_depth tick\<bar> \<le> 10 ^ 300 \<and> \<bar>price tick\<bar> \<le> 10 ^ 150 \<and>
           (\<forall>t\<in>set (large_trades (trades tick)). side t = Sell \<longrightarrow> 0 \<le> quantity t)"
  shows "\<exists>outs e'. processTicks e0 ticks = Inr (outs, e') \<and> length outs = length ticks \<and>
           (\<forall>out\<in>set outs. 0 \<le> score (stress out) \<and> score (stress out) \<le> 100) \<and>
           0 \<le> previousStress e' \<and> previousStress e' \<le> 100 \<and>
           (ticks \<noteq> [] \<longrightarrow>
              previous_score (trace (hd outs)) = previousStress e0 \<and>
              previousStress e' = smoothed_of (trace (last outs)) \<and>
              score (stress (last outs)) = Math_round (previousStress e')) \<and>
           (\<forall>i. Suc i < length outs \<longrightarrow>
              previous_score (trace (outs ! Suc i)) = smoothed_of (trace (outs ! i)))"
proof -
  from assms(1) have "previousStress e0 = 0"
    by (auto simp: new_AnalyticsEngine_def reset_def)
  then have r: "0 \<le> previousStress e0" "previousStress e0 \<le> 100" by simp_all
  have q: "\<forall>(tick, env)\<in>set ticks.
           \<forall>t\<in>set (large_trades (trades tick)). side t = Sell \<longrightarrow> 0 \<le> quantity t"
    using assms(2) by fastforce
  from r q show ?thesis by (rule processTicks_invariant)
qed

theorem score_range_invariant_witness:
  "\<exists>outs e'. processTicks new_AnalyticsEngine
                 [(block_sale_tick 3, quiet_env), (quiet_tick, quiet_env)] = Inr (outs, e') \<and>
     length outs = 2 \<and>
     0 \<le> score (stress (outs ! 0)) \<and> score (stress (outs ! 0)) \<le> 100 \<and>
     0 \<le> score (stress (outs ! 1)) \<and> score (stress (outs ! 1)) \<le> 100 \<and>
     0 \<le> previousStress e' \<and> previousStress e' \<le> 100 \<and>
     previousStress e' = smoothed_of (trace (outs ! 1))"
proof -
  have a: "new_AnalyticsEngine = new_AnalyticsEngine \<or> new_AnalyticsEngine = reset new_AnalyticsEngine"
    by simp
  have b: "\<forall>(tick, env)\<in>set [(block_sale_tick 3, quiet_env), (quiet_tick, quiet_env)].
           \<bar>total_depth tick\<bar> \<le> 10 ^ 300 \<and> \<bar>price tick\<bar> \<le> 10 ^ 150 \<and>
           (\<forall>t\<in>set (large_trades (trades tick)). side t = Sell \<longrightarrow> 0 \<le> quantity t)"
    by (simp add: block_sale_tick_def quiet_tick_def large_sell_def)
  from score_range_invariant [OF a b] obtain outs e' where
    r: "processTicks new_AnalyticsEngine
                 [(block_sale_tick 3, quiet_env), (quiet_tick, quiet_env)] = Inr (outs, e')" and
    l: "length outs = 2" and
    s: "\<forall>out\<in>set outs. 0 \<le> score (stress out) \<and> score (stress out) \<le> 100" and
    p: "0 \<le> previousStress e'" "previousStress e' \<le> 100"
       "previousStress e' = smoothed_of (trace (last outs))"
    by auto
  from l obtain o1 o2 where o: "outs = [o1, o2]"
    by (cases outs; cases "tl outs") auto
  with r l s p show ?thesis by simp
qed

text \<open>
  Claim C8 as the specification words it, for every sequence of ticks, fails: the forced
  selling risk has an upper bound of 100 and no lower bound, so a tick reporting a large
  sell trade of quantity -10 gives that signal the value -200, and a new engine emits the
  score -4 and stores -4.5.
\<close>

theorem negative_quantity_counterexample:
  "\<exists>out e'. processTick new_AnalyticsEngine (block_sale_tick (-10)) quiet_env = Inr (out, e') \<and>
     score (stress out) = - 4 \<and> previousStress e' = - 9 / 2"
proof -
  let ?t = "block_sale_tick (-10)"
  obtain out e' where p: "processTick new_AnalyticsEngine ?t quiet_env = Inr (out, e')"
    using processTick_total by blast
  note eff = processTick_effect [OF p]
  note pr = aggregator_projections [OF eff(7)]
  have l: "sig_value (signals out LIQUIDITY) = 0" "\<not> triggered (signals out LIQUIDITY)"
    using eff(12) first_liquidity_sample [of new_AnalyticsEngine ?t]
    by (auto simp: new_AnalyticsEngine_def new_CircularBuffer_def)
  have "signals out FLOW = defaultSignal FLOW (processing_timestamp ?t)"
    using eff(13) by (simp add: processFlow_value block_sale_tick_def)
  then have f: "sig_value (signals out FLOW) = 0" "\<not> triggered (signals out FLOW)"
    by simp_all
  have "signals out VOLATILITY = defaultSignal VOLATILITY (processing_timestamp ?t)"
    using eff(14)
    by (simp add: processVolatility_value Let_def getAll_def push_def
          new_AnalyticsEngine_def new_CircularBuffer_def)
  then have v: "sig_value (signals out VOLATILITY) = 0" "\<not> triggered (signals out VOLATILITY)"
    by simp_all
  have z: "sig_value (signals out FORCED_SELLING) = - 200"
    "\<not> triggered (signals out FORCED_SELLING)"
    using eff(11) forced_selling_block_sale by simp_all
  have raw: "raw_score (trace out) = - 30"
    unfolding pr(12) by (simp add: l f v z)
  have act: "signals_aligned (trace out) = 0"
    unfolding pr(10) by (simp add: signal_keys_def l f v z)
  have mult: "shock_multiplier (trace out) = 1"
    unfolding pr(9) act by simp
  have target: "pre_smooth_score (trace out) = - 30"
    unfolding pr(8) raw mult by simp
  have prev: "previous_score (trace out) = 0"
    unfolding eff(1) by (simp add: new_AnalyticsEngine_def)
  have alpha: "smoothing_alpha (trace out) = 0.15"
    using pr(7) target by (simp add: new_AnalyticsEngine_def)
  have sm: "previousStress e' = - 9 / 2"
    unfolding eff(2) smoothed_of_def alpha target prev by simp
  have sc: "score (stress out) = - 4"
    unfolding eff(3) sm by (simp add: Math_round_def)
  from p sm sc show ?thesis by blast
qed



text \<open>
  Claim C10. On the first tick after construction or after \<open>reset\<close> the liquidity window
  holds the depth of that tick alone, so the baseline is that depth, the change against it
  is 0 and the liquidity signal has risk 0 (value 0, severity STABLE) and is not triggered.
\<close>

theorem first_tick_liquidity_neutral:
  assumes "e0 = new_AnalyticsEngine \<or> e0 = reset e"
  shows "mean (push (total_depth tick) (liquidityBuffer e0)) = Inr (total_depth tick) \<and>
         (\<exists>out e'. processTick e0 tick env = Inr (out, e') \<and>
            signals out LIQUIDITY =
              \<lparr>sig_name = LIQUIDITY, sig_value = 0, severity = STABLE, triggered = False,
               raw_metrics = [(''Depth'', total_depth tick), (''Delta Mean'', 0)],
               explanation = Depth_within_stable_range, confidence = LOW,
               sig_timestamp = processing_timestamp tick\<rparr>)"
proof -
  from assms have empty: "buffer (liquidityBuffer e0) = []" "head (liquidityBuffer e0) = 0"
    by (auto simp: new_AnalyticsEngine_def new_CircularBuffer_def reset_def clear_def)
  have m: "mean (push (total_depth tick) (liquidityBuffer e0)) = Inr (total_depth tick)"
    using push_onto_empty [OF empty, of "total_depth tick"] by (simp add: mean_value)
  obtain l e1 f v e2 st tr e3 cs e4 ev e5 where
    l: "processLiquidity e0 tick = Inr (l, e1)" and
    p: "processTick e0 tick env =
       Inr (\<lparr>signals = signals_of l f v (processForcedSelling tick), stress = st, causal = cs,
             criticalEvent = ev, trace = tr\<rparr>, e5)"
    using processTick_stages [of e0 tick env] by blast
  from l first_liquidity_sample [OF empty, of tick] p m show ?thesis by simp
qed

theorem first_tick_liquidity_neutral_witness:
  "\<exists>out e'. processTick (reset new_AnalyticsEngine) quiet_tick quiet_env = Inr (out, e') \<and>
     sig_value (signals out LIQUIDITY) = 0 \<and> \<not> triggered (signals out LIQUIDITY)"
proof -
  have "reset new_AnalyticsEngine = new_AnalyticsEngine \<or>
        reset new_AnalyticsEngine = reset new_AnalyticsEngine" by simp
  from first_tick_liquidity_neutral [OF this, of quiet_tick quiet_env]
  show ?thesis by auto
qed

end
